theory Spec2Isabelle
  imports Main
begin

section \<open>Python values used by \<open>app.py\<close>\<close>

text \<open>
  A Python \<open>str\<close> is modelled as a \<open>string\<close> whose characters are the code points
  below 256. On that range \<open>str.strip()\<close> removes the code points 9-13, 28-32, 133 and
  160, and the regular expression class \<open>\d\<close> is exactly the ten characters \<open>0\<close>-\<open>9\<close>.
\<close>

datatype py_error = OverflowError | ValueError | ZeroDivisionError

definition is_space :: "char \<Rightarrow> bool" where
  "is_space c = (of_char c \<in> {9, 10, 11, 12, 13, 28, 29, 30, 31, 32, 133, 160 :: nat})"

definition is_digit :: "char \<Rightarrow> bool" where
  "is_digit c = (48 \<le> (of_char c :: nat) \<and> (of_char c :: nat) \<le> 57)"

definition py_strip :: "string \<Rightarrow> string" where
  "py_strip s = rev (dropWhile is_space (rev (dropWhile is_space s)))"

definition digit_val :: "char \<Rightarrow> nat" where
  "digit_val c = of_char c - 48"

definition decimal_value :: "string \<Rightarrow> nat" where
  "decimal_value ds = foldl (\<lambda>acc c. 10 * acc + digit_val c) 0 ds"

text \<open>
  \<open>int(ds)\<close> for a run of digits. The interpreter refuses a text of more than 4300
  digits, leading zeros counted, with \<open>ValueError\<close>; 4300 is its default limit.
\<close>

definition int_max_str_digits :: nat where
  "int_max_str_digits = 4300"

definition py_int :: "string \<Rightarrow> py_error + nat" where
  "py_int ds =
     (if int_max_str_digits < length ds then Inl ValueError else Inr (decimal_value ds))"

definition digit_char :: "nat \<Rightarrow> char" where
  "digit_char d = ''0123456789'' ! d"

function str_nat :: "nat \<Rightarrow> string" where
  "str_nat n = (if n < 10 then [digit_char n] else str_nat (n div 10) @ [digit_char (n mod 10)])"
  by pat_completeness auto
termination
  by (relation "measure id") auto

declare str_nat.simps [simp del]

text \<open>
  \<open>re.match(r'^(\d+)\+$', t)\<close>: the greedy run of digits must be non-empty and be
  followed by one \<open>+\<close>; \<open>$\<close> matches at the end of the text and also just before a
  final newline. The result is group 1.
\<close>

definition re_match_number_plus :: "string \<Rightarrow> string option" where
  "re_match_number_plus t =
     (let ds = takeWhile is_digit t; rest = dropWhile is_digit t
      in if ds \<noteq> [] \<and> (rest = ''+'' \<or> rest = [CHR ''+'', CHR 0x0A]) then Some ds else None)"

text \<open>
  \<open>repr\<close> of a double that is a multiple of one half and smaller than \<open>10^16\<close> in
  magnitude, given as the number \<open>h\<close> of halves: fixed notation, one digit after the
  point.
\<close>

definition repr_halves :: "int \<Rightarrow> string" where
  "repr_halves h =
     (if h < 0 then ''-'' else []) @ str_nat (nat \<bar>h\<bar> div 2) @ ''.'' @
     (if even h then ''0'' else ''5'')"

text \<open>
  The double that an int from \<open>2^53\<close> to \<open>2^54\<close> is converted to. The doubles there
  are the even integers; an odd int lies midway between two of them and goes to the one
  with the even significand, which is the multiple of 4.
\<close>

definition nearest_even :: "nat \<Rightarrow> nat" where
  "nearest_even n = (if even n then n else if 4 dvd (n + 1) then n + 1 else n - 1)"

text \<open>The first int whose conversion to a double raises \<open>OverflowError\<close>.\<close>

definition float_overflow_from :: nat where
  "float_overflow_from = 2 ^ 1024 - 2 ^ 970"

text \<open>
  \<open>str(number - 0.5)\<close> for a non-negative \<open>int\<close>. The int is converted to a double and
  one half is subtracted in double arithmetic. Up to \<open>2^52\<close> the difference is a double
  and the result is exact. From there to \<open>2^53\<close> the doubles are the integers, the
  difference lies midway between \<open>number - 1\<close> and \<open>number\<close>, and it is rounded to the
  even one. From \<open>2^53\<close> on the conversion itself rounds and the subtraction changes
  nothing. Up to \<open>10^16 - 2\<close> the text is in fixed notation. From \<open>10^16 - 1\<close> on it is
  in exponent notation with the shortest digits that identify the double; that text is
  the parameter \<open>beyond\<close>. From \<open>float_overflow_from\<close> on the conversion raises.
\<close>

definition str_minus_half :: "(nat \<Rightarrow> string) \<Rightarrow> nat \<Rightarrow> py_error + string" where
  "str_minus_half beyond n =
     (if n \<le> 2 ^ 52 then Inr (repr_halves (2 * int n - 1))
      else if n < 2 ^ 53 then Inr (repr_halves (2 * (if even n then int n else int n - 1)))
      else if n < 10 ^ 16 - 1 then Inr (repr_halves (2 * int (nearest_even n)))
      else if n < float_overflow_from then Inr (beyond n)
      else Inl OverflowError)"

section \<open>The line normalizer\<close>

definition convert_bet_line :: "(nat \<Rightarrow> string) \<Rightarrow> string \<Rightarrow> py_error + string" where
  "convert_bet_line beyond bet_line =
     (if bet_line = [] then Inr bet_line
      else case re_match_number_plus (py_strip bet_line) of
        Some g \<Rightarrow>
          (case py_int g of
             Inl e \<Rightarrow> Inl e
           | Inr number \<Rightarrow>
               (case str_minus_half beyond number of
                  Inl e \<Rightarrow> Inl e
                | Inr x \<Rightarrow> Inr (''Over '' @ x)))
      | None \<Rightarrow> Inr bet_line)"

section \<open>Records, pages and the outside world\<close>

text \<open>
  The dictionary built by \<open>parse_prop_row\<close>. A \<open>datetime\<close> is a number of
  microseconds; \<open>scraped_timestamp\<close> holds the clock reading whose ISO text the source
  stores.
\<close>

record prop_record =
  event :: string
  event_date :: string
  market :: string
  betslip_line :: string
  converted_betslip_line :: string
  odds :: string
  draftkings_url :: string
  sport :: string
  scraped_date_range :: string
  scraped_timestamp :: int

text \<open>
  What the row parser reads of the markup: of a row its \<open>td\<close> cells
  (\<open>row.find_all('td')\<close>), of a cell its text and its first \<open>a\<close> element
  (\<open>cell.find('a')\<close>), of a link its text and its \<open>href\<close> attribute, which may be
  missing.
\<close>

record anchor =
  anchor_text :: string
  anchor_href :: "string option"

record td =
  td_text :: string
  td_anchor :: "anchor option"

type_synonym tr = "td list"

text \<open>
  The outcome of fetching one URL and looking for the rows: the request or the parser
  raised, no table of class \<open>tb_pp_table\<close>, no \<open>tbody\<close> in it, or the rows of the
  \<open>tbody\<close>.
\<close>

datatype page = FetchFailed | NoTable | NoTbody | Tbody "tr list"

text \<open>
  The outside world is observed at successive instants, numbered from 0: each reading of
  \<open>datetime.now()\<close> and each request takes one instant. \<open>clock\<close> gives the reading at
  an instant, \<open>remote\<close> the answer to a URL at an instant. \<open>float_beyond\<close> is the
  parameter of \<open>str_minus_half\<close>, and \<open>percent_1f c t\<close> is the text of
  \<open>f"{c/t*100:.1f}%"\<close> for a positive \<open>t\<close>, computed in double arithmetic by the
  interpreter.
\<close>

record env =
  clock :: "nat \<Rightarrow> int"
  remote :: "nat \<Rightarrow> string \<Rightarrow> page"
  float_beyond :: "nat \<Rightarrow> string"
  percent_1f :: "nat \<Rightarrow> nat \<Rightarrow> string"

definition datetime_now :: "env \<Rightarrow> nat \<Rightarrow> int \<times> nat" where
  "datetime_now w k = (clock w k, Suc k)"

section \<open>The row parser\<close>

definition parse_prop_row :: "env \<Rightarrow> tr \<Rightarrow> string \<Rightarrow> string \<Rightarrow> nat \<Rightarrow> prop_record option \<times> nat" where
  "parse_prop_row w cells sport_name date_range k =
     (if length cells < 5 then (None, k)
      else
        let ev = py_strip (td_text (cells ! 0));
            ev_date = py_strip (td_text (cells ! 1));
            mkt = py_strip (td_text (cells ! 2));
            line = py_strip (td_text (cells ! 3))
        in case convert_bet_line (float_beyond w) line of
             Inl e \<Rightarrow> (None, k)
           | Inr converted \<Rightarrow>
               let odds_cell = cells ! 4;
                   (od, url) =
                     (case td_anchor odds_cell of
                        Some odds_link \<Rightarrow>
                          (py_strip (anchor_text odds_link),
                           case anchor_href odds_link of Some h \<Rightarrow> h | None \<Rightarrow> [])
                      | None \<Rightarrow> (py_strip (td_text odds_cell), []));
                   (now, k') = datetime_now w k
               in (Some \<lparr>event = ev, event_date = ev_date, market = mkt, betslip_line = line,
                         converted_betslip_line = converted, odds = od, draftkings_url = url,
                         sport = sport_name, scraped_date_range = date_range,
                         scraped_timestamp = now\<rparr>, k'))"

section \<open>The aggregator\<close>

record sport_config =
  sport_key :: string
  sport_id :: nat
  sport_display_name :: string
  date_ranges :: "string list"

definition sport_configs :: "sport_config list" where
  "sport_configs =
     [\<lparr>sport_key = ''mlb'', sport_id = 84240, sport_display_name = ''MLB'', date_ranges = [''today'', ''tomorrow'']\<rparr>,
      \<lparr>sport_key = ''wnba'', sport_id = 94682, sport_display_name = ''WNBA'', date_ranges = [''today'', ''tomorrow'']\<rparr>,
      \<lparr>sport_key = ''nba'', sport_id = 42648, sport_display_name = ''NBA'', date_ranges = [''today'', ''tomorrow'']\<rparr>,
      \<lparr>sport_key = ''nhl'', sport_id = 42133, sport_display_name = ''NHL'', date_ranges = [''today'', ''tomorrow'']\<rparr>,
      \<lparr>sport_key = ''nfl'', sport_id = 88808, sport_display_name = ''NFL'', date_ranges = [''today'', ''tomorrow'']\<rparr>,
      \<lparr>sport_key = ''ufc'', sport_id = 9034, sport_display_name = ''UFC'', date_ranges = [''today'', ''tomorrow'']\<rparr>,
      \<lparr>sport_key = ''ncaaf'', sport_id = 87637, sport_display_name = ''NCAA Football'', date_ranges = [''today'', ''tomorrow'']\<rparr>,
      \<lparr>sport_key = ''ncaa_basketball'', sport_id = 92483, sport_display_name = ''NCAA Basketball'', date_ranges = [''today'', ''tomorrow'']\<rparr>,
      \<lparr>sport_key = ''ncaa_womens_basketball'', sport_id = 36647, sport_display_name = ''NCAA Womens Basketball'', date_ranges = [''today'', ''tomorrow'']\<rparr>,
      \<lparr>sport_key = ''ncaa_baseball'', sport_id = 41151, sport_display_name = ''NCAA Baseball'', date_ranges = [''today'', ''tomorrow'']\<rparr>,
      \<lparr>sport_key = ''ncaa_ice_hockey'', sport_id = 84813, sport_display_name = ''NCAA Ice Hockey'', date_ranges = [''today'', ''tomorrow'']\<rparr>,
      \<lparr>sport_key = ''mls'', sport_id = 89345, sport_display_name = ''MLS'', date_ranges = [''today'']\<rparr>,
      \<lparr>sport_key = ''premier_league'', sport_id = 40253, sport_display_name = ''England Premier League'', date_ranges = [''today'']\<rparr>,
      \<lparr>sport_key = ''champions_league'', sport_id = 40685, sport_display_name = ''Champions League'', date_ranges = [''today'']\<rparr>,
      \<lparr>sport_key = ''europa_league'', sport_id = 41410, sport_display_name = ''Europa League'', date_ranges = [''today'']\<rparr>]"

definition base_url :: string where
  "base_url = ''https://dknetwork.draftkings.com/draftkings-sportsbook-player-props/''"

definition build_url :: "nat \<Rightarrow> string \<Rightarrow> string" where
  "build_url sid date_range =
     base_url @ ''?tb_eg='' @ str_nat sid @ ''&tb_edate='' @ date_range @ ''&tb_view=2''"

text \<open>The test of the generator inside \<open>any(...)\<close>: the five compared fields.\<close>

definition same_key :: "prop_record \<Rightarrow> prop_record \<Rightarrow> bool" where
  "same_key existing prop_data =
     (event existing = event prop_data \<and>
      event_date existing = event_date prop_data \<and>
      market existing = market prop_data \<and>
      betslip_line existing = betslip_line prop_data \<and>
      scraped_date_range existing = scraped_date_range prop_data)"

text \<open>The loop over the rows of one page; \<open>acc\<close> is \<open>all_props_data\<close>.\<close>

fun process_rows :: "env \<Rightarrow> string \<Rightarrow> string \<Rightarrow> tr list \<Rightarrow> prop_record list \<Rightarrow> nat \<Rightarrow> prop_record list \<times> nat" where
  "process_rows w sport_name date_range [] acc k = (acc, k)"
| "process_rows w sport_name date_range (row # rows) acc k =
     (case parse_prop_row w row sport_name date_range k of
        (None, k') \<Rightarrow> process_rows w sport_name date_range rows acc k'
      | (Some prop_data, k') \<Rightarrow>
          if list_ex (\<lambda>existing. same_key existing prop_data) acc
          then process_rows w sport_name date_range rows acc k'
          else process_rows w sport_name date_range rows (acc @ [prop_data]) k')"

text \<open>The body of the loop over the date ranges of one sport.\<close>

definition scrape_date_range :: "env \<Rightarrow> sport_config \<Rightarrow> string \<Rightarrow> prop_record list \<Rightarrow> nat \<Rightarrow> prop_record list \<times> nat" where
  "scrape_date_range w config date_range acc k =
     (case remote w k (build_url (sport_id config) date_range) of
        FetchFailed \<Rightarrow> (acc, Suc k)
      | NoTable \<Rightarrow> (acc, Suc k)
      | NoTbody \<Rightarrow> (acc, Suc k)
      | Tbody prop_rows \<Rightarrow>
          process_rows w (sport_display_name config) date_range prop_rows acc (Suc k))"

fun scrape_date_ranges :: "env \<Rightarrow> sport_config \<Rightarrow> string list \<Rightarrow> prop_record list \<Rightarrow> nat \<Rightarrow> prop_record list \<times> nat" where
  "scrape_date_ranges w config [] acc k = (acc, k)"
| "scrape_date_ranges w config (date_range # rest) acc k =
     (case scrape_date_range w config date_range acc k of
        (acc', k') \<Rightarrow> scrape_date_ranges w config rest acc' k')"

fun scrape_sports :: "env \<Rightarrow> sport_config list \<Rightarrow> prop_record list \<Rightarrow> nat \<Rightarrow> prop_record list \<times> nat" where
  "scrape_sports w [] acc k = (acc, k)"
| "scrape_sports w (config # rest) acc k =
     (case scrape_date_ranges w config (date_ranges config) acc k of
        (acc', k') \<Rightarrow> scrape_sports w rest acc' k')"

definition scrape_player_props :: "env \<Rightarrow> nat \<Rightarrow> prop_record list \<times> nat" where
  "scrape_player_props w k = scrape_sports w sport_configs [] k"

section \<open>The cache manager\<close>

text \<open>
  The two module globals \<open>cached_props_data\<close> and \<open>cache_timestamp\<close>, together with
  the next instant of the outside world and \<open>scrape_runs\<close>, the number of calls of
  \<open>scrape_player_props\<close> made so far. The counter is not a variable of the source: it
  records the effect that the cache is there to avoid.
\<close>

record cache_state =
  cached_props_data :: "prop_record list"
  cache_timestamp :: "int option"
  instant :: nat
  scrape_runs :: nat

definition initial_state :: cache_state where
  "initial_state = \<lparr>cached_props_data = [], cache_timestamp = None, instant = 0, scrape_runs = 0\<rparr>"

definition CACHE_DURATION_MINUTES :: int where
  "CACHE_DURATION_MINUTES = 30"

definition timedelta_minutes :: "int \<Rightarrow> int" where
  "timedelta_minutes m = m * 60000000"

definition read_clock :: "env \<Rightarrow> cache_state \<Rightarrow> int \<times> cache_state" where
  "read_clock w s = (case datetime_now w (instant s) of (now, k) \<Rightarrow> (now, s\<lparr>instant := k\<rparr>))"

definition is_cache_expired :: "env \<Rightarrow> cache_state \<Rightarrow> bool \<times> cache_state" where
  "is_cache_expired w s =
     (case cache_timestamp s of
        None \<Rightarrow> (True, s)
      | Some ts \<Rightarrow>
          (case read_clock w s of
             (now, s') \<Rightarrow> (now - ts > timedelta_minutes CACHE_DURATION_MINUTES, s')))"

definition run_scrape :: "env \<Rightarrow> cache_state \<Rightarrow> prop_record list \<times> cache_state" where
  "run_scrape w s =
     (case scrape_player_props w (instant s) of
        (fresh_data, k) \<Rightarrow> (fresh_data, s\<lparr>instant := k, scrape_runs := Suc (scrape_runs s)\<rparr>))"

text \<open>
  The condition is \<open>cached_props_data and not is_cache_expired()\<close>: with an empty list
  the expiry is not looked at. The first branch reads the clock once more, for the
  message it prints.
\<close>

definition get_cached_or_fresh_data :: "env \<Rightarrow> cache_state \<Rightarrow> prop_record list \<times> cache_state" where
  "get_cached_or_fresh_data w s =
     (case (if cached_props_data s = [] then (False, s)
            else case is_cache_expired w s of (expired, s1) \<Rightarrow> (\<not> expired, s1)) of
        (use_cache, s1) \<Rightarrow>
          if use_cache then
            (case read_clock w s1 of (now, s2) \<Rightarrow> (cached_props_data s2, s2))
          else
            (case run_scrape w s1 of
               (fresh_data, s2) \<Rightarrow>
                 (case read_clock w (s2\<lparr>cached_props_data := fresh_data\<rparr>) of
                    (now, s3) \<Rightarrow> (fresh_data, s3\<lparr>cache_timestamp := Some now\<rparr>))))"

record refresh_response =
  refresh_message :: string
  refresh_total_props :: nat
  refresh_cache_timestamp :: "int option"

definition refresh_props_cache :: "env \<Rightarrow> cache_state \<Rightarrow> refresh_response \<times> cache_state" where
  "refresh_props_cache w s =
     (case get_cached_or_fresh_data w (s\<lparr>cached_props_data := [], cache_timestamp := None\<rparr>) of
        (props, s') \<Rightarrow>
          (\<lparr>refresh_message = ''Props cache refreshed successfully'',
            refresh_total_props = length props,
            refresh_cache_timestamp = cache_timestamp s'\<rparr>, s'))"

section \<open>The query layer\<close>

text \<open>
  The dictionary \<open>sports_props\<close> is an association list in insertion order. \<open>xs[:limit]\<close>
  counts a negative \<open>limit\<close> from the end.
\<close>

definition py_slice_to :: "'a list \<Rightarrow> int \<Rightarrow> 'a list" where
  "py_slice_to xs limit =
     (if 0 \<le> limit then take (nat limit) xs else take (nat (int (length xs) + limit)) xs)"

definition dict_append :: "string \<Rightarrow> prop_record \<Rightarrow> (string \<times> prop_record list) list \<Rightarrow> (string \<times> prop_record list) list" where
  "dict_append key v d = map (\<lambda>(k', vs). if k' = key then (k', vs @ [v]) else (k', vs)) d"

fun group_props :: "prop_record list \<Rightarrow> (string \<times> prop_record list) list \<Rightarrow> (string \<times> prop_record list) list" where
  "group_props [] sports_props = sports_props"
| "group_props (p # props) sports_props =
     group_props props
       (dict_append (sport p) p
          (if sport p \<notin> set (map fst sports_props) then sports_props @ [(sport p, [])]
           else sports_props))"

definition get_top_props_by_sport :: "prop_record list \<Rightarrow> int \<Rightarrow> (string \<times> prop_record list) list" where
  "get_top_props_by_sport props limit =
     map (\<lambda>(sp, vs). (sp, py_slice_to vs limit)) (group_props props [])"




section \<open>Notions of the specification\<close>

text \<open>
  A decimal number with one digit after the point, given as its number of tenths:
  \<open>n - 0.5\<close> is \<open>10 * n - 5\<close> tenths.
\<close>

definition one_decimal :: "int \<Rightarrow> string" where
  "one_decimal tenths =
     (if tenths < 0 then ''-'' else []) @ str_nat (nat \<bar>tenths\<bar> div 10) @ ''.'' @
     str_nat (nat \<bar>tenths\<bar> mod 10)"


text \<open>
  The sequence of extracted rows of a run: the records that the row parser returns, in
  the order of the run, before any of them is dropped. The functions follow the iteration of
  \<open>scrape_player_props\<close> without the accumulator.
\<close>

fun parsed_rows :: "env \<Rightarrow> string \<Rightarrow> string \<Rightarrow> tr list \<Rightarrow> nat \<Rightarrow> prop_record list \<times> nat" where
  "parsed_rows w sport_name date_range [] k = ([], k)"
| "parsed_rows w sport_name date_range (row # rows) k =
     (case parse_prop_row w row sport_name date_range k of
        (r, k') \<Rightarrow>
          (case parsed_rows w sport_name date_range rows k' of
             (ps, k'') \<Rightarrow> ((case r of None \<Rightarrow> [] | Some p \<Rightarrow> [p]) @ ps, k'')))"

definition extracted_date_range :: "env \<Rightarrow> sport_config \<Rightarrow> string \<Rightarrow> nat \<Rightarrow> prop_record list \<times> nat" where
  "extracted_date_range w config date_range k =
     (case remote w k (build_url (sport_id config) date_range) of
        Tbody prop_rows \<Rightarrow> parsed_rows w (sport_display_name config) date_range prop_rows (Suc k)
      | _ \<Rightarrow> ([], Suc k))"

fun extracted_date_ranges :: "env \<Rightarrow> sport_config \<Rightarrow> string list \<Rightarrow> nat \<Rightarrow> prop_record list \<times> nat" where
  "extracted_date_ranges w config [] k = ([], k)"
| "extracted_date_ranges w config (date_range # rest) k =
     (case extracted_date_range w config date_range k of
        (ps, k') \<Rightarrow>
          (case extracted_date_ranges w config rest k' of (qs, k'') \<Rightarrow> (ps @ qs, k'')))"

fun extracted_sports :: "env \<Rightarrow> sport_config list \<Rightarrow> nat \<Rightarrow> prop_record list \<times> nat" where
  "extracted_sports w [] k = ([], k)"
| "extracted_sports w (config # rest) k =
     (case extracted_date_ranges w config (date_ranges config) k of
        (ps, k') \<Rightarrow> (case extracted_sports w rest k' of (qs, k'') \<Rightarrow> (ps @ qs, k'')))"

definition extracted_props :: "env \<Rightarrow> nat \<Rightarrow> prop_record list \<times> nat" where
  "extracted_props w k = extracted_sports w sport_configs k"

text \<open>Appending the records one by one, each unless a record of the same key is there.\<close>

fun keep_first :: "prop_record list \<Rightarrow> prop_record list \<Rightarrow> prop_record list" where
  "keep_first acc [] = acc"
| "keep_first acc (p # ps) =
     keep_first (if list_ex (\<lambda>existing. same_key existing p) acc then acc else acc @ [p]) ps"

section \<open>Sample inputs\<close>

text \<open>
  A stand-in for the text of a double in exponent notation: \<open>1e+16\<close>, the text of the
  double \<open>10^16\<close>, which is what \<open>str(number - 0.5)\<close> gives at \<open>10^16 - 1\<close> and at
  \<open>10^16\<close>.
\<close>

definition sample_beyond :: "nat \<Rightarrow> string" where
  "sample_beyond n = ''1e+16''"

text \<open>A stand-in for the text of a percentage, showing the two numbers it is made from.\<close>

definition sample_percent :: "nat \<Rightarrow> nat \<Rightarrow> string" where
  "sample_percent c t = str_nat c @ '' of '' @ str_nat t"

definition text_cell :: "string \<Rightarrow> td" where
  "text_cell t = \<lparr>td_text = t, td_anchor = None\<rparr>"

definition link_cell :: "string \<Rightarrow> string \<Rightarrow> td" where
  "link_cell t h = \<lparr>td_text = t, td_anchor = Some \<lparr>anchor_text = t, anchor_href = Some h\<rparr>\<rparr>"

definition sample_row :: tr where
  "sample_row =
     [text_cell ''NYY @ BOS'', text_cell ''Today 7:05PM'', text_cell '' Home Runs '',
      text_cell ''1+'', link_cell '' +120 '' ''https://sportsbook.draftkings.com/e/1'']"

definition plain_row :: tr where
  "plain_row =
     [text_cell ''LAL @ GSW'', text_cell ''Today 9:00PM'', text_cell ''Points'',
      text_cell ''Over 24.5'', text_cell ''-110'']"

definition short_row :: tr where
  "short_row = [text_cell ''NYY @ BOS'', text_cell ''Today 7:05PM'']"

text \<open>
  A row whose line is a one before 309 zeros, too large for a double, and a row whose line
  is a one after 4300 zeros, too long for the conversion to an integer.
\<close>

definition overflow_row :: tr where
  "overflow_row =
     [text_cell ''NYY @ BOS'', text_cell ''Today 7:05PM'', text_cell ''Hits'',
      text_cell (CHR ''1'' # replicate 309 (CHR ''0'') @ ''+''), text_cell ''-110'']"

definition too_long_row :: tr where
  "too_long_row =
     [text_cell ''NYY @ BOS'', text_cell ''Today 7:05PM'', text_cell ''Hits'',
      text_cell (replicate 4300 (CHR ''0'') @ ''1+''), text_cell ''-110'']"

text \<open>A site without any table, and a site that lists the same row under two sports.\<close>

definition quiet_remote :: "nat \<Rightarrow> string \<Rightarrow> page" where
  "quiet_remote k url = NoTable"

definition zero_clock :: "nat \<Rightarrow> int" where
  "zero_clock k = 0"

definition quiet_env :: env where
  "quiet_env = \<lparr>clock = zero_clock, remote = quiet_remote, float_beyond = sample_beyond,
                percent_1f = sample_percent\<rparr>"

definition dup_remote :: "nat \<Rightarrow> string \<Rightarrow> page" where
  "dup_remote k url =
     (if url = build_url 84240 ''today'' \<or> url = build_url 94682 ''today''
      then Tbody [sample_row, short_row, sample_row] else NoTable)"

definition dup_env :: env where
  "dup_env = \<lparr>clock = zero_clock, remote = dup_remote, float_beyond = sample_beyond,
              percent_1f = sample_percent\<rparr>"

definition sample_record :: "string \<Rightarrow> prop_record" where
  "sample_record sp =
     \<lparr>event = ''NYY @ BOS'', event_date = ''Today 7:05PM'', market = ''Home Runs'',
      betslip_line = ''1+'', converted_betslip_line = ''Over 0.5'', odds = ''+120'',
      draftkings_url = ''https://sportsbook.draftkings.com/e/1'', sport = sp,
      scraped_date_range = ''today'', scraped_timestamp = 0\<rparr>"

text \<open>A cache whose timestamp is set and whose list is empty, and one with a record.\<close>

definition empty_fresh_state :: cache_state where
  "empty_fresh_state =
     \<lparr>cached_props_data = [], cache_timestamp = Some 0, instant = 5, scrape_runs = 1\<rparr>"

definition filled_state :: cache_state where
  "filled_state =
     \<lparr>cached_props_data = [sample_record ''MLB''], cache_timestamp = Some 0, instant = 5,
      scrape_runs = 1\<rparr>"

section \<open>Properties of the line normalizer\<close>

lemma py_strip_last: "py_strip s = t @ [c] \<Longrightarrow> \<not> is_space c"
proof -
  assume a: "py_strip s = t @ [c]"
  let ?d = "dropWhile is_space (rev (dropWhile is_space s))"
  from a have "rev ?d = t @ [c]" by (simp add: py_strip_def)
  then have "rev (rev ?d) = rev (t @ [c])" by simp
  then have "?d = c # rev t" by simp
  then show ?thesis by (metis hd_dropWhile list.sel(1) list.distinct(1))
qed

text \<open>A text with no blank at either end is left as it is.\<close>

lemma py_strip_id:
  assumes "s \<noteq> []" and "\<not> is_space (hd s)" and "\<not> is_space (last s)"
  shows "py_strip s = s"
proof -
  obtain c t where s: "s = c # t" using assms(1) by (cases s) auto
  then have a: "dropWhile is_space s = s" using assms(2) by simp
  obtain u d where r: "rev s = d # u" using assms(1) by (cases "rev s") auto
  then have "d = last s" using assms(1) by (metis hd_rev list.sel(1))
  then have "\<not> is_space d" using assms(3) by simp
  then have "dropWhile is_space (d # u) = d # u" by simp
  then have "dropWhile is_space (rev s) = rev s" unfolding r .
  then show ?thesis by (simp add: py_strip_def a)
qed

lemma plus_not_digit: "\<not> is_digit CHR ''+''"
  by (simp add: is_digit_def)

lemma newline_is_space: "is_space (CHR 0x0A)"
  by (simp add: is_space_def)

lemma match_digits_plus:
  assumes "\<forall>c\<in>set ds. is_digit c"
  shows "takeWhile is_digit (ds @ CHR ''+'' # r) = ds"
    and "dropWhile is_digit (ds @ CHR ''+'' # r) = CHR ''+'' # r"
  using assms plus_not_digit by (simp_all add: takeWhile_append dropWhile_append)

text \<open>What the regular expression accepts, and what its group is.\<close>

lemma re_match_Some_iff:
  "re_match_number_plus t = Some ds \<longleftrightarrow>
     ds \<noteq> [] \<and> (\<forall>c\<in>set ds. is_digit c) \<and> (t = ds @ ''+'' \<or> t = ds @ [CHR ''+'', CHR 0x0A])"
proof
  assume "re_match_number_plus t = Some ds"
  then have d: "ds = takeWhile is_digit t" and n: "ds \<noteq> []"
    and r: "dropWhile is_digit t = ''+'' \<or> dropWhile is_digit t = [CHR ''+'', CHR 0x0A]"
    by (auto simp: re_match_number_plus_def Let_def split: if_splits)
  have "t = ds @ dropWhile is_digit t" using d by simp
  moreover have "\<forall>c\<in>set ds. is_digit c" using d by (auto dest: set_takeWhileD)
  ultimately show "ds \<noteq> [] \<and> (\<forall>c\<in>set ds. is_digit c) \<and>
      (t = ds @ ''+'' \<or> t = ds @ [CHR ''+'', CHR 0x0A])"
    using n r by metis
next
  assume "ds \<noteq> [] \<and> (\<forall>c\<in>set ds. is_digit c) \<and>
      (t = ds @ ''+'' \<or> t = ds @ [CHR ''+'', CHR 0x0A])"
  then show "re_match_number_plus t = Some ds"
    using match_digits_plus[of ds] by (auto simp: re_match_number_plus_def Let_def)
qed

text \<open>After \<open>strip()\<close> no final newline is left, so \<open>$\<close> only matches at the end.\<close>

lemma re_match_strip_iff:
  "re_match_number_plus (py_strip s) = Some ds \<longleftrightarrow>
     ds \<noteq> [] \<and> (\<forall>c\<in>set ds. is_digit c) \<and> py_strip s = ds @ ''+''"
proof -
  have "py_strip s \<noteq> ds @ [CHR ''+'', CHR 0x0A]"
  proof
    assume "py_strip s = ds @ [CHR ''+'', CHR 0x0A]"
    then have "py_strip s = (ds @ ''+'') @ [CHR 0x0A]" by simp
    from py_strip_last[OF this] show False using newline_is_space by simp
  qed
  then show ?thesis by (simp add: re_match_Some_iff)
qed

lemma str_nat_5: "str_nat 5 = ''5''"
  by (simp add: str_nat.simps digit_char_def)

text \<open>The decimal text of a number consists of digits and reads back as the number.\<close>

lemma digit_val_digit_char: "d < 10 \<Longrightarrow> digit_val (digit_char d) = d"
proof -
  assume "d < 10"
  then have "d \<in> {0, 1, 2, 3, 4, 5, 6, 7, 8, 9}" by auto
  then show ?thesis by (auto simp: digit_val_def digit_char_def)
qed

lemma is_digit_digit_char: "d < 10 \<Longrightarrow> is_digit (digit_char d)"
proof -
  assume "d < 10"
  then have "d \<in> {0, 1, 2, 3, 4, 5, 6, 7, 8, 9}" by auto
  then show ?thesis by (auto simp: is_digit_def digit_char_def)
qed

lemma decimal_value_snoc: "decimal_value (ds @ [c]) = 10 * decimal_value ds + digit_val c"
  by (simp add: decimal_value_def)

lemma decimal_value_str_nat: "decimal_value (str_nat n) = n"
proof (induction n rule: str_nat.induct)
  case (1 n)
  show ?case
  proof (cases "n < 10")
    case True
    then show ?thesis
      by (simp add: str_nat.simps[of n] decimal_value_def digit_val_digit_char)
  next
    case False
    then have "decimal_value (str_nat n) =
        10 * decimal_value (str_nat (n div 10)) + digit_val (digit_char (n mod 10))"
      by (simp add: str_nat.simps[of n] decimal_value_snoc)
    then show ?thesis using 1 False by (simp add: digit_val_digit_char)
  qed
qed

lemma str_nat_digits: "\<forall>c\<in>set (str_nat n). is_digit c"
proof (induction n rule: str_nat.induct)
  case (1 n)
  show ?case
  proof (cases "n < 10")
    case True
    then show ?thesis by (simp add: str_nat.simps[of n] is_digit_digit_char)
  next
    case False
    then show ?thesis using 1 by (simp add: str_nat.simps[of n] is_digit_digit_char)
  qed
qed

text \<open>Zeros in front do not change the number; zeros behind multiply it by ten each.\<close>

lemma decimal_value_zeros_front:
  "decimal_value (replicate k (CHR ''0'') @ ds) = decimal_value ds"
proof -
  have "foldl (\<lambda>acc c. 10 * acc + digit_val c) 0 (replicate k (CHR ''0'')) = 0"
  proof (induction k)
    case 0
    show ?case by simp
  next
    case (Suc k)
    have "digit_val (CHR ''0'') = 0" by (simp add: digit_val_def)
    then show ?case using Suc by simp
  qed
  then show ?thesis by (simp add: decimal_value_def)
qed

lemma decimal_value_zeros_behind:
  "decimal_value (ds @ replicate k (CHR ''0'')) = decimal_value ds * 10 ^ k"
proof (induction k)
  case 0
  then show ?case by simp
next
  case (Suc k)
  have "decimal_value (ds @ replicate (Suc k) (CHR ''0'')) =
      decimal_value ((ds @ replicate k (CHR ''0'')) @ [CHR ''0''])"
    by (simp add: replicate_append_same)
  also have "\<dots> = 10 * decimal_value (ds @ replicate k (CHR ''0''))"
    by (simp only: decimal_value_snoc) (simp add: digit_val_def)
  finally show ?case using Suc by simp
qed

text \<open>The five stretches of \<open>str(number - 0.5)\<close>.\<close>

lemma str_minus_half_exact:
  assumes "n \<le> 2 ^ 52"
  shows "str_minus_half beyond n = Inr (one_decimal (10 * int n - 5))"
proof (cases "n = 0")
  case True
  then show ?thesis
    by (simp add: str_minus_half_def repr_halves_def one_decimal_def str_nat_5)
next
  case False
  then obtain m where m: "n = Suc m" by (cases n) auto
  have "2 * int n - 1 = int (2 * m + 1)" using m by simp
  then have "nat \<bar>2 * int n - 1\<bar> = 2 * m + 1" by (simp only: abs_of_nat nat_int)
  then have a: "nat \<bar>2 * int n - 1\<bar> div 2 = m" by simp
  have "10 * int n - 5 = int (10 * m + 5)" using m by simp
  then have "nat \<bar>10 * int n - 5\<bar> = 10 * m + 5" by (simp only: abs_of_nat nat_int)
  then have b: "nat \<bar>10 * int n - 5\<bar> div 10 = m" "nat \<bar>10 * int n - 5\<bar> mod 10 = 5"
    by simp_all
  have c: "\<not> 2 * int n - 1 < 0" "\<not> 10 * int n - 5 < 0" "odd (2 * int n - 1)"
    using m by simp_all
  show ?thesis using assms
    unfolding str_minus_half_def repr_halves_def one_decimal_def a b
    using c by (simp add: str_nat_5)
qed

lemma repr_halves_whole: "repr_halves (2 * int m) = str_nat m @ ''.0''"
proof -
  have "nat \<bar>2 * int m\<bar> = 2 * m" by (simp add: nat_mult_distrib)
  then show ?thesis by (simp add: repr_halves_def)
qed

lemma str_minus_half_tie:
  assumes "2 ^ 52 < n" and "n < 2 ^ 53"
  shows "str_minus_half beyond n = Inr (str_nat (if even n then n else n - 1) @ ''.0'')"
proof -
  have "(if even n then int n else int n - 1) = int (if even n then n else n - 1)"
    using assms(1) by (auto simp: of_nat_diff)
  then have "repr_halves (2 * (if even n then int n else int n - 1)) =
      str_nat (if even n then n else n - 1) @ ''.0''"
    by (simp only: repr_halves_whole)
  then show ?thesis using assms by (simp add: str_minus_half_def)
qed

lemma str_minus_half_fixed:
  assumes "2 ^ 53 \<le> n" and "n < 10 ^ 16 - 1"
  shows "str_minus_half beyond n = Inr (str_nat (nearest_even n) @ ''.0'')"
  using assms by (simp add: str_minus_half_def repr_halves_whole)

lemma str_minus_half_exponent:
  assumes "10 ^ 16 - 1 \<le> n" and "n < float_overflow_from"
  shows "str_minus_half beyond n = Inr (beyond n)"
  using assms by (simp add: str_minus_half_def)

lemma str_minus_half_overflow:
  assumes "float_overflow_from \<le> n"
  shows "str_minus_half beyond n = Inl OverflowError"
proof -
  have "(10::nat) ^ 16 - 1 < float_overflow_from" "(2::nat) ^ 53 < float_overflow_from"
    by (simp_all add: float_overflow_from_def)
  then show ?thesis using assms by (simp add: str_minus_half_def)
qed

lemma strip_keeps_head:
  assumes "\<not> is_space c"
  shows "\<exists>r. py_strip (c # t) = c # r"
proof -
  have d: "dropWhile is_space (c # t) = c # t" using assms by simp
  have "\<exists>zs. dropWhile is_space (rev t @ [c]) = zs @ [c]"
    using assms by (cases "\<forall>x\<in>set t. is_space x") (simp_all add: dropWhile_append)
  then obtain zs where z: "dropWhile is_space (rev t @ [c]) = zs @ [c]" by blast
  have "py_strip (c # t) = c # rev zs"
    unfolding py_strip_def d using z by simp
  then show ?thesis by blast
qed

lemma no_match_head:
  assumes "\<not> is_space c" "\<not> is_digit c"
  shows "re_match_number_plus (py_strip (c # t)) = None"
proof -
  obtain r where "py_strip (c # t) = c # r" using strip_keeps_head[OF assms(1)] by blast
  then show ?thesis using assms(2) by (simp add: re_match_number_plus_def)
qed

text \<open>A text that starts with the letter of \<open>Over\<close> is returned as it is.\<close>

lemma convert_over: "convert_bet_line beyond (CHR ''O'' # t) = Inr (CHR ''O'' # t)"
proof -
  have "re_match_number_plus (py_strip (CHR ''O'' # t)) = None"
    by (rule no_match_head) (simp_all add: is_space_def is_digit_def)
  then show ?thesis by (simp add: convert_bet_line_def)
qed

text \<open>The normalizer on an input whose stripped form is digits and a plus sign.\<close>

lemma convert_matched:
  assumes "ds \<noteq> []" and "\<forall>c\<in>set ds. is_digit c" and "py_strip s = ds @ ''+''"
  shows "convert_bet_line beyond s =
    (case py_int ds of
       Inl e \<Rightarrow> Inl e
     | Inr number \<Rightarrow>
         (case str_minus_half beyond number of
            Inl e \<Rightarrow> Inl e
          | Inr x \<Rightarrow> Inr (''Over '' @ x)))"
proof -
  have m: "re_match_number_plus (py_strip s) = Some ds"
    using assms re_match_strip_iff[of s ds] by blast
  have "s \<noteq> []" using assms(3) by (auto simp: py_strip_def)
  then show ?thesis using m by (simp add: convert_bet_line_def)
qed

lemma convert_unmatched:
  assumes "\<nexists>ds. ds \<noteq> [] \<and> (\<forall>c\<in>set ds. is_digit c) \<and> py_strip s = ds @ ''+''"
  shows "convert_bet_line beyond s = Inr s"
proof -
  have "re_match_number_plus (py_strip s) = None"
    using assms re_match_strip_iff[of s]
    by (cases "re_match_number_plus (py_strip s)") auto
  then show ?thesis by (simp add: convert_bet_line_def)
qed

lemma convert_too_long:
  assumes "ds \<noteq> []" and "\<forall>c\<in>set ds. is_digit c" and "py_strip s = ds @ ''+''"
    and "int_max_str_digits < length ds"
  shows "convert_bet_line beyond s = Inl ValueError"
  using assms(4) by (simp add: convert_matched[OF assms(1-3)] py_int_def)

lemma convert_in_limit:
  assumes "ds \<noteq> []" and "\<forall>c\<in>set ds. is_digit c" and "py_strip s = ds @ ''+''"
    and "length ds \<le> int_max_str_digits"
  shows "convert_bet_line beyond s =
    (case str_minus_half beyond (decimal_value ds) of
       Inl e \<Rightarrow> Inl e
     | Inr x \<Rightarrow> Inr (''Over '' @ x))"
  using assms(4) by (simp add: convert_matched[OF assms(1-3)] py_int_def)

lemma convert_overflow:
  assumes "ds \<noteq> []" and "\<forall>c\<in>set ds. is_digit c" and "py_strip s = ds @ ''+''"
    and "length ds \<le> int_max_str_digits" and "float_overflow_from \<le> decimal_value ds"
  shows "convert_bet_line beyond s = Inl OverflowError"
  by (simp add: convert_in_limit[OF assms(1-4)] str_minus_half_overflow[OF assms(5)])

lemmas convert_eval =
  convert_bet_line_def py_strip_def is_space_def re_match_number_plus_def is_digit_def
  py_int_def int_max_str_digits_def decimal_value_def digit_val_def str_minus_half_def
  nearest_even_def repr_halves_def str_nat.simps digit_char_def one_decimal_def

text \<open>The two sample lines that the interpreter refuses.\<close>

lemma zero_digit: "is_digit CHR ''0''" "is_digit CHR ''1''" "\<not> is_space CHR ''0''"
  "\<not> is_space CHR ''1''" "\<not> is_space CHR ''+''"
  by (simp_all add: is_digit_def is_space_def)

lemma py_strip_too_long_line:
  "py_strip (replicate 4300 (CHR ''0'') @ ''1+'') = (replicate 4300 (CHR ''0'') @ ''1'') @ ''+''"
proof -
  have "py_strip (replicate 4300 (CHR ''0'') @ ''1+'') = replicate 4300 (CHR ''0'') @ ''1+''"
    by (rule py_strip_id) (simp_all add: zero_digit hd_append)
  then show ?thesis by simp
qed

lemma convert_too_long_line:
  "convert_bet_line beyond (replicate 4300 (CHR ''0'') @ ''1+'') = Inl ValueError"
  by (rule convert_too_long[OF _ _ py_strip_too_long_line])
    (auto simp: zero_digit int_max_str_digits_def)

lemma py_strip_overflow_line:
  "py_strip (CHR ''1'' # replicate 309 (CHR ''0'') @ ''+'') =
     (CHR ''1'' # replicate 309 (CHR ''0'')) @ ''+''"
proof -
  have "py_strip (CHR ''1'' # replicate 309 (CHR ''0'') @ ''+'') =
      CHR ''1'' # replicate 309 (CHR ''0'') @ ''+''"
    by (rule py_strip_id) (simp_all add: zero_digit)
  then show ?thesis by simp
qed

lemma decimal_value_overflow_line:
  "decimal_value (CHR ''1'' # replicate 309 (CHR ''0'')) = 10 ^ 309"
proof -
  have "decimal_value (''1'' @ replicate 309 (CHR ''0'')) = decimal_value ''1'' * 10 ^ 309"
    by (rule decimal_value_zeros_behind)
  then show ?thesis by (simp add: decimal_value_def digit_val_def)
qed

lemma convert_overflow_line:
  "convert_bet_line beyond (CHR ''1'' # replicate 309 (CHR ''0'') @ ''+'') = Inl OverflowError"
proof (rule convert_overflow[OF _ _ py_strip_overflow_line])
  show "CHR ''1'' # replicate 309 (CHR ''0'') \<noteq> []" by simp
  show "\<forall>c\<in>set (CHR ''1'' # replicate 309 (CHR ''0'')). is_digit c"
    by (auto simp: zero_digit)
  show "length (CHR ''1'' # replicate 309 (CHR ''0'')) \<le> int_max_str_digits"
    by (simp add: int_max_str_digits_def)
  show "float_overflow_from \<le> decimal_value (CHR ''1'' # replicate 309 (CHR ''0''))"
    unfolding decimal_value_overflow_line by (simp add: float_overflow_from_def)
qed

text \<open>
  Claim C2, as amended. Let the stripped input be a non-empty run of digits followed by
  \<open>+\<close>, and let \<open>n\<close> be the number that the digits read as. With at most 4300 digits
  and \<open>n\<close> at most \<open>2^52\<close>, the result is \<open>Over\<close>, a blank, and \<open>n - 0.5\<close> with one
  digit after the point. With more than 4300 digits the call raises \<open>ValueError\<close>. With
  at most 4300 digits and a larger \<open>n\<close> the subtraction is rounded: below \<open>2^53\<close> the
  number shown is the even one of \<open>n - 1\<close> and \<open>n\<close>, from there to \<open>10^16 - 2\<close> it is
  the even integer nearest to \<open>n\<close> (of two equally near, the multiple of 4), both
  followed by \<open>.0\<close>; from \<open>10^16 - 1\<close> on the call returns \<open>Over\<close>, a blank, and the
  interpreter's text of the rounded double in exponent notation, which the model takes
  as the parameter; from \<open>2^1024 - 2^970\<close> on the call raises \<open>OverflowError\<close>. When the
  stripped input is of no such form, the empty input included, the result is the input
  itself.
\<close>

theorem convert_bet_line_spec:
  "(ds \<noteq> [] \<and> (\<forall>c\<in>set ds. is_digit c) \<and> py_strip s = ds @ ''+'' \<and>
    length ds \<le> int_max_str_digits \<and> decimal_value ds \<le> 2 ^ 52
      \<longrightarrow> convert_bet_line beyond s =
            Inr (''Over '' @ one_decimal (10 * int (decimal_value ds) - 5))) \<and>
   ((\<nexists>ds'. ds' \<noteq> [] \<and> (\<forall>c\<in>set ds'. is_digit c) \<and> py_strip s = ds' @ ''+'')
      \<longrightarrow> convert_bet_line beyond s = Inr s) \<and>
   (ds \<noteq> [] \<and> (\<forall>c\<in>set ds. is_digit c) \<and> py_strip s = ds @ ''+'' \<and>
    int_max_str_digits < length ds
      \<longrightarrow> convert_bet_line beyond s = Inl ValueError) \<and>
   (ds \<noteq> [] \<and> (\<forall>c\<in>set ds. is_digit c) \<and> py_strip s = ds @ ''+'' \<and>
    length ds \<le> int_max_str_digits \<and> 2 ^ 52 < decimal_value ds \<and> decimal_value ds < 2 ^ 53
      \<longrightarrow> convert_bet_line beyond s =
            Inr (''Over '' @
              str_nat (if even (decimal_value ds) then decimal_value ds
                       else decimal_value ds - 1) @ ''.0'')) \<and>
   (ds \<noteq> [] \<and> (\<forall>c\<in>set ds. is_digit c) \<and> py_strip s = ds @ ''+'' \<and>
    length ds \<le> int_max_str_digits \<and> 2 ^ 53 \<le> decimal_value ds \<and>
    decimal_value ds < 10 ^ 16 - 1
      \<longrightarrow> convert_bet_line beyond s =
            Inr (''Over '' @ str_nat (nearest_even (decimal_value ds)) @ ''.0'')) \<and>
   (ds \<noteq> [] \<and> (\<forall>c\<in>set ds. is_digit c) \<and> py_strip s = ds @ ''+'' \<and>
    length ds \<le> int_max_str_digits \<and> 10 ^ 16 - 1 \<le> decimal_value ds \<and>
    decimal_value ds < float_overflow_from
      \<longrightarrow> convert_bet_line beyond s = Inr (''Over '' @ beyond (decimal_value ds))) \<and>
   (ds \<noteq> [] \<and> (\<forall>c\<in>set ds. is_digit c) \<and> py_strip s = ds @ ''+'' \<and>
    length ds \<le> int_max_str_digits \<and> float_overflow_from \<le> decimal_value ds
      \<longrightarrow> convert_bet_line beyond s = Inl OverflowError)"
proof (intro conjI impI)
  assume a: "ds \<noteq> [] \<and> (\<forall>c\<in>set ds. is_digit c) \<and> py_strip s = ds @ ''+'' \<and>
    length ds \<le> int_max_str_digits \<and> decimal_value ds \<le> 2 ^ 52"
  then have "convert_bet_line beyond s =
      (case str_minus_half beyond (decimal_value ds) of
         Inl e \<Rightarrow> Inl e | Inr x \<Rightarrow> Inr (''Over '' @ x))"
    using convert_in_limit[of ds s beyond] by blast
  then show "convert_bet_line beyond s =
      Inr (''Over '' @ one_decimal (10 * int (decimal_value ds) - 5))"
    using a by (simp add: str_minus_half_exact)
next
  assume "\<nexists>ds'. ds' \<noteq> [] \<and> (\<forall>c\<in>set ds'. is_digit c) \<and> py_strip s = ds' @ ''+''"
  then show "convert_bet_line beyond s = Inr s" by (rule convert_unmatched)
next
  assume "ds \<noteq> [] \<and> (\<forall>c\<in>set ds. is_digit c) \<and> py_strip s = ds @ ''+'' \<and>
    int_max_str_digits < length ds"
  then show "convert_bet_line beyond s = Inl ValueError"
    using convert_too_long[of ds s beyond] by blast
next
  assume a: "ds \<noteq> [] \<and> (\<forall>c\<in>set ds. is_digit c) \<and> py_strip s = ds @ ''+'' \<and>
    length ds \<le> int_max_str_digits \<and> 2 ^ 52 < decimal_value ds \<and> decimal_value ds < 2 ^ 53"
  then have "convert_bet_line beyond s =
      (case str_minus_half beyond (decimal_value ds) of
         Inl e \<Rightarrow> Inl e | Inr x \<Rightarrow> Inr (''Over '' @ x))"
    using convert_in_limit[of ds s beyond] by blast
  moreover have "str_minus_half beyond (decimal_value ds) =
      Inr (str_nat (if even (decimal_value ds) then decimal_value ds
                    else decimal_value ds - 1) @ ''.0'')"
    using a str_minus_half_tie[of "decimal_value ds" beyond] by blast
  ultimately show "convert_bet_line beyond s =
      Inr (''Over '' @
        str_nat (if even (decimal_value ds) then decimal_value ds
                 else decimal_value ds - 1) @ ''.0'')"
    by simp
next
  assume a: "ds \<noteq> [] \<and> (\<forall>c\<in>set ds. is_digit c) \<and> py_strip s = ds @ ''+'' \<and>
    length ds \<le> int_max_str_digits \<and> 2 ^ 53 \<le> decimal_value ds \<and>
    decimal_value ds < 10 ^ 16 - 1"
  then have "convert_bet_line beyond s =
      (case str_minus_half beyond (decimal_value ds) of
         Inl e \<Rightarrow> Inl e | Inr x \<Rightarrow> Inr (''Over '' @ x))"
    using convert_in_limit[of ds s beyond] by blast
  moreover have "str_minus_half beyond (decimal_value ds) =
      Inr (str_nat (nearest_even (decimal_value ds)) @ ''.0'')"
    using a str_minus_half_fixed[of "decimal_value ds" beyond] by blast
  ultimately show "convert_bet_line beyond s =
      Inr (''Over '' @ str_nat (nearest_even (decimal_value ds)) @ ''.0'')"
    by simp
next
  assume a: "ds \<noteq> [] \<and> (\<forall>c\<in>set ds. is_digit c) \<and> py_strip s = ds @ ''+'' \<and>
    length ds \<le> int_max_str_digits \<and> 10 ^ 16 - 1 \<le> decimal_value ds \<and>
    decimal_value ds < float_overflow_from"
  then have "convert_bet_line beyond s =
      (case str_minus_half beyond (decimal_value ds) of
         Inl e \<Rightarrow> Inl e | Inr x \<Rightarrow> Inr (''Over '' @ x))"
    using convert_in_limit[of ds s beyond] by blast
  moreover have "str_minus_half beyond (decimal_value ds) = Inr (beyond (decimal_value ds))"
    using a str_minus_half_exponent[of "decimal_value ds" beyond] by blast
  ultimately show "convert_bet_line beyond s = Inr (''Over '' @ beyond (decimal_value ds))"
    by simp
next
  assume "ds \<noteq> [] \<and> (\<forall>c\<in>set ds. is_digit c) \<and> py_strip s = ds @ ''+'' \<and>
    length ds \<le> int_max_str_digits \<and> float_overflow_from \<le> decimal_value ds"
  then show "convert_bet_line beyond s = Inl OverflowError"
    using convert_overflow[of ds s beyond] by blast
qed

text \<open>
  The theorem at \<open>12+\<close> between blanks, at the empty input, at a one after 4300 zeros,
  at \<open>2^52 + 1\<close>, at \<open>2^53 + 1\<close>, at \<open>10^16\<close>, and at a one before 309 zeros.
\<close>

theorem convert_bet_line_spec_witness:
  "py_strip '' 12+ '' = ''12'' @ ''+'' \<and> decimal_value ''12'' \<le> 2 ^ 52 \<and>
   convert_bet_line sample_beyond '' 12+ '' = Inr ''Over 11.5'' \<and>
   convert_bet_line sample_beyond [] = Inr [] \<and>
   int_max_str_digits < length (replicate 4300 (CHR ''0'') @ ''1'') \<and>
   convert_bet_line sample_beyond (replicate 4300 (CHR ''0'') @ ''1+'') = Inl ValueError \<and>
   2 ^ 52 < decimal_value ''4503599627370497'' \<and> decimal_value ''4503599627370497'' < 2 ^ 53 \<and>
   convert_bet_line sample_beyond ''4503599627370497+'' = Inr ''Over 4503599627370496.0'' \<and>
   2 ^ 53 \<le> decimal_value ''9007199254740993'' \<and>
   decimal_value ''9007199254740993'' < 10 ^ 16 - 1 \<and>
   convert_bet_line sample_beyond ''9007199254740993+'' = Inr ''Over 9007199254740992.0'' \<and>
   10 ^ 16 - 1 \<le> decimal_value ''10000000000000000'' \<and>
   decimal_value ''10000000000000000'' < float_overflow_from \<and>
   convert_bet_line sample_beyond ''10000000000000000+'' = Inr ''Over 1e+16'' \<and>
   float_overflow_from \<le> decimal_value (CHR ''1'' # replicate 309 (CHR ''0'')) \<and>
   convert_bet_line sample_beyond (CHR ''1'' # replicate 309 (CHR ''0'') @ ''+'') =
     Inl OverflowError"
proof -
  have h1: "''12'' \<noteq> [] \<and> (\<forall>c\<in>set ''12''. is_digit c) \<and> py_strip '' 12+ '' = ''12'' @ ''+'' \<and>
      length ''12'' \<le> int_max_str_digits \<and> decimal_value ''12'' \<le> 2 ^ 52"
    by (simp add: py_strip_def is_space_def is_digit_def decimal_value_def digit_val_def
        int_max_str_digits_def)
  have h2: "\<nexists>ds'. ds' \<noteq> [] \<and> (\<forall>c\<in>set ds'. is_digit c) \<and> py_strip [] = ds' @ ''+''"
    by (simp add: py_strip_def)
  have h3: "replicate 4300 (CHR ''0'') @ ''1'' \<noteq> [] \<and>
      (\<forall>c\<in>set (replicate 4300 (CHR ''0'') @ ''1''). is_digit c) \<and>
      py_strip (replicate 4300 (CHR ''0'') @ ''1+'') = (replicate 4300 (CHR ''0'') @ ''1'') @ ''+'' \<and>
      int_max_str_digits < length (replicate 4300 (CHR ''0'') @ ''1'')"
    using py_strip_too_long_line by (auto simp: zero_digit int_max_str_digits_def)
  have h4: "''4503599627370497'' \<noteq> [] \<and> (\<forall>c\<in>set ''4503599627370497''. is_digit c) \<and>
      py_strip ''4503599627370497+'' = ''4503599627370497'' @ ''+'' \<and>
      length ''4503599627370497'' \<le> int_max_str_digits \<and>
      2 ^ 52 < decimal_value ''4503599627370497'' \<and> decimal_value ''4503599627370497'' < 2 ^ 53"
    by (simp add: py_strip_def is_space_def is_digit_def decimal_value_def digit_val_def
        int_max_str_digits_def)
  have h5: "''9007199254740993'' \<noteq> [] \<and> (\<forall>c\<in>set ''9007199254740993''. is_digit c) \<and>
      py_strip ''9007199254740993+'' = ''9007199254740993'' @ ''+'' \<and>
      length ''9007199254740993'' \<le> int_max_str_digits \<and>
      2 ^ 53 \<le> decimal_value ''9007199254740993'' \<and>
      decimal_value ''9007199254740993'' < 10 ^ 16 - 1"
    by (simp add: py_strip_def is_space_def is_digit_def decimal_value_def digit_val_def
        int_max_str_digits_def)
  have h7: "''10000000000000000'' \<noteq> [] \<and> (\<forall>c\<in>set ''10000000000000000''. is_digit c) \<and>
      py_strip ''10000000000000000+'' = ''10000000000000000'' @ ''+'' \<and>
      length ''10000000000000000'' \<le> int_max_str_digits \<and>
      10 ^ 16 - 1 \<le> decimal_value ''10000000000000000'' \<and>
      decimal_value ''10000000000000000'' < float_overflow_from"
    by (simp add: py_strip_def is_space_def is_digit_def decimal_value_def digit_val_def
        int_max_str_digits_def float_overflow_from_def)
  have r7: "convert_bet_line sample_beyond ''10000000000000000+'' =
      Inr (''Over '' @ sample_beyond (decimal_value ''10000000000000000''))"
    using convert_bet_line_spec[of "''10000000000000000''" "''10000000000000000+''" sample_beyond]
      h7 by blast
  have v7: "sample_beyond (decimal_value ''10000000000000000'') = ''1e+16''"
    by (simp add: sample_beyond_def)
  have o: "float_overflow_from \<le> decimal_value (CHR ''1'' # replicate 309 (CHR ''0''))"
    unfolding decimal_value_overflow_line by (simp add: float_overflow_from_def)
  have h6: "CHR ''1'' # replicate 309 (CHR ''0'') \<noteq> [] \<and>
      (\<forall>c\<in>set (CHR ''1'' # replicate 309 (CHR ''0'')). is_digit c) \<and>
      py_strip (CHR ''1'' # replicate 309 (CHR ''0'') @ ''+'') =
        (CHR ''1'' # replicate 309 (CHR ''0'')) @ ''+'' \<and>
      length (CHR ''1'' # replicate 309 (CHR ''0'')) \<le> int_max_str_digits \<and>
      float_overflow_from \<le> decimal_value (CHR ''1'' # replicate 309 (CHR ''0''))"
    using py_strip_overflow_line o by (auto simp: zero_digit int_max_str_digits_def)
  have r1: "convert_bet_line sample_beyond '' 12+ '' =
      Inr (''Over '' @ one_decimal (10 * int (decimal_value ''12'') - 5))"
    using convert_bet_line_spec[of "''12''" "'' 12+ ''" sample_beyond] h1 by blast
  have v1: "one_decimal (10 * int (decimal_value ''12'') - 5) = ''11.5''"
    by (simp add: convert_eval)
  have r2: "convert_bet_line sample_beyond [] = Inr []"
    using convert_bet_line_spec[of "[]" "[]" sample_beyond] h2 by blast
  have r3: "convert_bet_line sample_beyond (replicate 4300 (CHR ''0'') @ ''1+'') = Inl ValueError"
    using convert_bet_line_spec[of "replicate 4300 (CHR ''0'') @ ''1''"
        "replicate 4300 (CHR ''0'') @ ''1+''" sample_beyond] h3 by blast
  have r4: "convert_bet_line sample_beyond ''4503599627370497+'' =
      Inr (''Over '' @
        str_nat (if even (decimal_value ''4503599627370497'') then decimal_value ''4503599627370497''
                 else decimal_value ''4503599627370497'' - 1) @ ''.0'')"
    using convert_bet_line_spec[of "''4503599627370497''" "''4503599627370497+''" sample_beyond]
      h4 by blast
  have v4: "str_nat (if even (decimal_value ''4503599627370497'') then decimal_value ''4503599627370497''
                 else decimal_value ''4503599627370497'' - 1) = ''4503599627370496''"
    by (simp add: convert_eval)
  have r5: "convert_bet_line sample_beyond ''9007199254740993+'' =
      Inr (''Over '' @ str_nat (nearest_even (decimal_value ''9007199254740993'')) @ ''.0'')"
    using convert_bet_line_spec[of "''9007199254740993''" "''9007199254740993+''" sample_beyond]
      h5 by blast
  have v5: "str_nat (nearest_even (decimal_value ''9007199254740993'')) = ''9007199254740992''"
    by (simp add: convert_eval)
  have r6: "convert_bet_line sample_beyond (CHR ''1'' # replicate 309 (CHR ''0'') @ ''+'') =
      Inl OverflowError"
    using convert_bet_line_spec[of "CHR ''1'' # replicate 309 (CHR ''0'')"
        "CHR ''1'' # replicate 309 (CHR ''0'') @ ''+''" sample_beyond] h6 by blast
  show ?thesis
    using h1 h3 h4 h5 h7 o r1 r2 r3 r4 r5 r6 r7 unfolding v1 v4 v5 v7 by simp
qed

text \<open>
  Claim C2 as stated fails at \<open>4503599627370497+\<close>, the first number above \<open>2^52\<close>: the
  double subtraction rounds \<open>4503599627370496.5\<close> to \<open>4503599627370496.0\<close>. It also
  fails at a one after 4300 zeros, which reads as 1: the call raises \<open>ValueError\<close> where
  the claim has \<open>Over 0.5\<close>.
\<close>

theorem convert_bet_line_counterexample:
  "py_strip ''4503599627370497+'' = ''4503599627370497'' @ ''+'' \<and>
   decimal_value ''4503599627370497'' = 4503599627370497 \<and>
   convert_bet_line sample_beyond ''4503599627370497+'' = Inr ''Over 4503599627370496.0'' \<and>
   ''Over '' @ one_decimal (10 * int (decimal_value ''4503599627370497'') - 5) =
     ''Over 4503599627370496.5'' \<and>
   convert_bet_line sample_beyond ''4503599627370497+'' \<noteq>
     Inr (''Over '' @ one_decimal (10 * int (decimal_value ''4503599627370497'') - 5)) \<and>
   py_strip (replicate 4300 (CHR ''0'') @ ''1+'') = (replicate 4300 (CHR ''0'') @ ''1'') @ ''+'' \<and>
   decimal_value (replicate 4300 (CHR ''0'') @ ''1'') = 1 \<and>
   convert_bet_line sample_beyond (replicate 4300 (CHR ''0'') @ ''1+'') = Inl ValueError"
proof -
  have a: "py_strip ''4503599627370497+'' = ''4503599627370497'' @ ''+'' \<and>
   decimal_value ''4503599627370497'' = 4503599627370497 \<and>
   convert_bet_line sample_beyond ''4503599627370497+'' = Inr ''Over 4503599627370496.0'' \<and>
   ''Over '' @ one_decimal (10 * int (decimal_value ''4503599627370497'') - 5) =
     ''Over 4503599627370496.5'' \<and>
   convert_bet_line sample_beyond ''4503599627370497+'' \<noteq>
     Inr (''Over '' @ one_decimal (10 * int (decimal_value ''4503599627370497'') - 5))"
    by (simp add: convert_eval)
  have b: "decimal_value (replicate 4300 (CHR ''0'') @ ''1'') = 1"
    unfolding decimal_value_zeros_front by (simp add: decimal_value_def digit_val_def)
  show ?thesis using a b py_strip_too_long_line convert_too_long_line[of sample_beyond] by blast
qed

text \<open>
  Claim C9. Normalizing twice is normalizing once: the result of a second call on the
  result of a first call (an exception of the first call propagating) is the result of the
  first call.
\<close>

theorem convert_bet_line_idempotent:
  "(case convert_bet_line beyond s of Inl e \<Rightarrow> Inl e | Inr t \<Rightarrow> convert_bet_line beyond t)
     = convert_bet_line beyond s"
proof (cases "s = []")
  case True
  then show ?thesis by (simp add: convert_bet_line_def)
next
  case False
  show ?thesis
  proof (cases "re_match_number_plus (py_strip s)")
    case None
    then show ?thesis using False by (simp add: convert_bet_line_def)
  next
    case (Some g)
    show ?thesis
    proof (cases "py_int g")
      case (Inl e)
      then have "convert_bet_line beyond s = Inl e"
        using Some False by (simp add: convert_bet_line_def)
      then show ?thesis by simp
    next
      case number: (Inr number)
      show ?thesis
      proof (cases "str_minus_half beyond number")
        case (Inl e)
        then have "convert_bet_line beyond s = Inl e"
          using Some False number by (simp add: convert_bet_line_def)
        then show ?thesis by simp
      next
        case (Inr x)
        then have "convert_bet_line beyond s = Inr (CHR ''O'' # ''ver '' @ x)"
          using Some False number by (simp add: convert_bet_line_def)
        then show ?thesis by (simp add: convert_over)
      qed
    qed
  qed
qed

text \<open>The theorem at \<open>3+\<close>: the first call gives \<open>Over 2.5\<close>, the second leaves it.\<close>

theorem convert_bet_line_idempotent_witness:
  "convert_bet_line sample_beyond ''3+'' = Inr ''Over 2.5'' \<and>
   convert_bet_line sample_beyond ''Over 2.5'' = Inr ''Over 2.5''"
proof -
  have a: "convert_bet_line sample_beyond ''3+'' = Inr ''Over 2.5''"
    by (simp add: convert_eval)
  show ?thesis using convert_bet_line_idempotent[of sample_beyond "''3+''"] a by simp
qed

section \<open>Properties of the row parser\<close>

lemma parse_prop_row_short:
  "length cells < 5 \<Longrightarrow> parse_prop_row w cells sport_name date_range k = (None, k)"
  by (simp add: parse_prop_row_def)

lemma parse_prop_row_raise:
  assumes "5 \<le> length cells"
    and "convert_bet_line (float_beyond w) (py_strip (td_text (cells ! 3))) = Inl e"
  shows "parse_prop_row w cells sport_name date_range k = (None, k)"
  using assms by (simp add: parse_prop_row_def Let_def)

lemma parse_prop_row_record:
  assumes "5 \<le> length cells"
    and "convert_bet_line (float_beyond w) (py_strip (td_text (cells ! 3))) = Inr converted"
  shows "parse_prop_row w cells sport_name date_range k =
    (Some \<lparr>event = py_strip (td_text (cells ! 0)),
           event_date = py_strip (td_text (cells ! 1)),
           market = py_strip (td_text (cells ! 2)),
           betslip_line = py_strip (td_text (cells ! 3)),
           converted_betslip_line = converted,
           odds = (case td_anchor (cells ! 4) of
                     Some odds_link \<Rightarrow> py_strip (anchor_text odds_link)
                   | None \<Rightarrow> py_strip (td_text (cells ! 4))),
           draftkings_url = (case td_anchor (cells ! 4) of
                     Some odds_link \<Rightarrow> (case anchor_href odds_link of Some h \<Rightarrow> h | None \<Rightarrow> [])
                   | None \<Rightarrow> []),
           sport = sport_name, scraped_date_range = date_range,
           scraped_timestamp = clock w k\<rparr>, Suc k)"
  using assms
  by (simp add: parse_prop_row_def Let_def datetime_now_def split: option.splits)

text \<open>Whether a row fails does not depend on the instant, and a failed row takes none.\<close>

lemma parse_prop_row_None_any:
  assumes "fst (parse_prop_row w cells sport_name date_range k) = None"
  shows "parse_prop_row w cells sport_name date_range k' = (None, k')"
proof (cases "length cells < 5")
  case True
  then show ?thesis by (rule parse_prop_row_short)
next
  case False
  then have l: "5 \<le> length cells" by simp
  show ?thesis
  proof (cases "convert_bet_line (float_beyond w) (py_strip (td_text (cells ! 3)))")
    case (Inl e)
    with l show ?thesis by (rule parse_prop_row_raise)
  next
    case (Inr converted)
    from parse_prop_row_record[OF l Inr, of sport_name date_range k] assms
    show ?thesis by simp
  qed
qed

lemma process_rows_skip:
  assumes "fst (parse_prop_row w cells sport_name date_range k) = None"
  shows "process_rows w sport_name date_range (before @ cells # after) acc k0 =
         process_rows w sport_name date_range (before @ after) acc k0"
proof (induction before arbitrary: acc k0)
  case Nil
  show ?case using parse_prop_row_None_any[OF assms, of k0] by simp
next
  case (Cons row before)
  show ?case
    by (cases "parse_prop_row w row sport_name date_range k0") (auto simp: Cons.IH split: option.splits)
qed

text \<open>
  Claim C7. A row of fewer than five cells gives \<open>None\<close>; so does a row of five cells or
  more when the parsing raises, which in the model is the conversion of the line raising.
  Otherwise the row gives a record: event, date, market and line are the stripped texts of
  cells 0 to 3; odds and link target come from the link of cell 4 when it has one (an
  absent \<open>href\<close> giving the empty text), and else are the stripped text of cell 4 and the
  empty text. A row that gives \<open>None\<close> is skipped: the rows before and after it are
  processed as if it were not there.
\<close>

theorem parse_prop_row_spec:
  "(length cells < 5 \<longrightarrow> parse_prop_row w cells sport_name date_range k = (None, k)) \<and>
   (5 \<le> length cells \<and>
    convert_bet_line (float_beyond w) (py_strip (td_text (cells ! 3))) = Inl e
      \<longrightarrow> parse_prop_row w cells sport_name date_range k = (None, k)) \<and>
   (5 \<le> length cells \<and>
    convert_bet_line (float_beyond w) (py_strip (td_text (cells ! 3))) = Inr converted
      \<longrightarrow> parse_prop_row w cells sport_name date_range k =
        (Some \<lparr>event = py_strip (td_text (cells ! 0)),
               event_date = py_strip (td_text (cells ! 1)),
               market = py_strip (td_text (cells ! 2)),
               betslip_line = py_strip (td_text (cells ! 3)),
               converted_betslip_line = converted,
               odds = (case td_anchor (cells ! 4) of
                         Some odds_link \<Rightarrow> py_strip (anchor_text odds_link)
                       | None \<Rightarrow> py_strip (td_text (cells ! 4))),
               draftkings_url = (case td_anchor (cells ! 4) of
                         Some odds_link \<Rightarrow> (case anchor_href odds_link of Some h \<Rightarrow> h | None \<Rightarrow> [])
                       | None \<Rightarrow> []),
               sport = sport_name, scraped_date_range = date_range,
               scraped_timestamp = clock w k\<rparr>, Suc k)) \<and>
   (fst (parse_prop_row w cells sport_name date_range k) = None
      \<longrightarrow> process_rows w sport_name date_range (before @ cells # after) acc k0 =
          process_rows w sport_name date_range (before @ after) acc k0)"
  using parse_prop_row_short[of cells w sport_name date_range k]
    parse_prop_row_raise[of cells w e sport_name date_range k]
    parse_prop_row_record[of cells w converted sport_name date_range k]
    process_rows_skip[of w cells sport_name date_range k before after acc k0]
  by blast

lemmas rows_eval =
  text_cell_def link_cell_def sample_row_def plain_row_def short_row_def
  quiet_env_def dup_env_def sample_beyond_def zero_clock_def

text \<open>
  The theorem at the five sample rows: the short row fails, the row whose line is too
  large for a double fails on \<open>OverflowError\<close>, the row whose line has too many digits
  fails on \<open>ValueError\<close>, the row with a link gives its record, and the short row between
  two others is skipped.
\<close>

theorem parse_prop_row_spec_witness:
  "length short_row < 5 \<and>
   parse_prop_row quiet_env short_row ''MLB'' ''today'' 7 = (None, 7) \<and>
   5 \<le> length overflow_row \<and>
   convert_bet_line (float_beyond quiet_env) (py_strip (td_text (overflow_row ! 3))) = Inl OverflowError \<and>
   parse_prop_row quiet_env overflow_row ''MLB'' ''today'' 7 = (None, 7) \<and>
   5 \<le> length too_long_row \<and>
   convert_bet_line (float_beyond quiet_env) (py_strip (td_text (too_long_row ! 3))) = Inl ValueError \<and>
   parse_prop_row quiet_env too_long_row ''MLB'' ''today'' 7 = (None, 7) \<and>
   5 \<le> length sample_row \<and>
   convert_bet_line (float_beyond quiet_env) (py_strip (td_text (sample_row ! 3))) = Inr ''Over 0.5'' \<and>
   parse_prop_row quiet_env sample_row ''MLB'' ''today'' 7 =
     (Some \<lparr>event = ''NYY @ BOS'', event_date = ''Today 7:05PM'', market = ''Home Runs'',
            betslip_line = ''1+'', converted_betslip_line = ''Over 0.5'', odds = ''+120'',
            draftkings_url = ''https://sportsbook.draftkings.com/e/1'', sport = ''MLB'',
            scraped_date_range = ''today'', scraped_timestamp = 0\<rparr>, 8) \<and>
   fst (parse_prop_row quiet_env short_row ''MLB'' ''today'' 7) = None \<and>
   process_rows quiet_env ''MLB'' ''today'' ([sample_row] @ short_row # [plain_row]) [] 0 =
     process_rows quiet_env ''MLB'' ''today'' ([sample_row] @ [plain_row]) [] 0"
proof -
  have s: "length short_row < 5" by (simp add: rows_eval)
  have ol: "td_text (overflow_row ! 3) = CHR ''1'' # replicate 309 (CHR ''0'') @ ''+''"
    by (simp add: overflow_row_def text_cell_def)
  have os: "py_strip (td_text (overflow_row ! 3)) = CHR ''1'' # replicate 309 (CHR ''0'') @ ''+''"
    unfolding ol using py_strip_overflow_line by simp
  have o: "5 \<le> length overflow_row \<and>
      convert_bet_line (float_beyond quiet_env) (py_strip (td_text (overflow_row ! 3))) = Inl OverflowError"
    unfolding os using convert_overflow_line[of "float_beyond quiet_env"]
    by (simp add: overflow_row_def)
  have ll: "td_text (too_long_row ! 3) = replicate 4300 (CHR ''0'') @ ''1+''"
    by (simp add: too_long_row_def text_cell_def)
  have ls: "py_strip (td_text (too_long_row ! 3)) = replicate 4300 (CHR ''0'') @ ''1+''"
    unfolding ll using py_strip_too_long_line by simp
  have l: "5 \<le> length too_long_row \<and>
      convert_bet_line (float_beyond quiet_env) (py_strip (td_text (too_long_row ! 3))) = Inl ValueError"
    unfolding ls using convert_too_long_line[of "float_beyond quiet_env"]
    by (simp add: too_long_row_def)
  have g: "5 \<le> length sample_row \<and>
      convert_bet_line (float_beyond quiet_env) (py_strip (td_text (sample_row ! 3))) = Inr ''Over 0.5''"
    by (simp add: rows_eval convert_eval)
  note t1 = parse_prop_row_spec[of short_row quiet_env "''MLB''" "''today''" 7 OverflowError
      "''Over 0.5''" "[sample_row]" "[plain_row]" "[]" 0]
  note t2 = parse_prop_row_spec[of overflow_row quiet_env "''MLB''" "''today''" 7 OverflowError
      "''Over 0.5''" "[]" "[]" "[]" 0]
  note t4 = parse_prop_row_spec[of too_long_row quiet_env "''MLB''" "''today''" 7 ValueError
      "''Over 0.5''" "[]" "[]" "[]" 0]
  note t3 = parse_prop_row_spec[of sample_row quiet_env "''MLB''" "''today''" 7 OverflowError
      "''Over 0.5''" "[]" "[]" "[]" 0]
  have p1: "parse_prop_row quiet_env short_row ''MLB'' ''today'' 7 = (None, 7)"
    using t1 s by blast
  have p2: "parse_prop_row quiet_env overflow_row ''MLB'' ''today'' 7 = (None, 7)"
    using t2 o by blast
  have p5: "parse_prop_row quiet_env too_long_row ''MLB'' ''today'' 7 = (None, 7)"
    using t4 l by blast
  have p3: "parse_prop_row quiet_env sample_row ''MLB'' ''today'' 7 =
     (Some \<lparr>event = ''NYY @ BOS'', event_date = ''Today 7:05PM'', market = ''Home Runs'',
            betslip_line = ''1+'', converted_betslip_line = ''Over 0.5'', odds = ''+120'',
            draftkings_url = ''https://sportsbook.draftkings.com/e/1'', sport = ''MLB'',
            scraped_date_range = ''today'', scraped_timestamp = 0\<rparr>, 8)"
  proof -
    have "parse_prop_row quiet_env sample_row ''MLB'' ''today'' 7 =
        (Some \<lparr>event = py_strip (td_text (sample_row ! 0)),
               event_date = py_strip (td_text (sample_row ! 1)),
               market = py_strip (td_text (sample_row ! 2)),
               betslip_line = py_strip (td_text (sample_row ! 3)),
               converted_betslip_line = ''Over 0.5'',
               odds = (case td_anchor (sample_row ! 4) of
                         Some odds_link \<Rightarrow> py_strip (anchor_text odds_link)
                       | None \<Rightarrow> py_strip (td_text (sample_row ! 4))),
               draftkings_url = (case td_anchor (sample_row ! 4) of
                         Some odds_link \<Rightarrow> (case anchor_href odds_link of Some h \<Rightarrow> h | None \<Rightarrow> [])
                       | None \<Rightarrow> []),
               sport = ''MLB'', scraped_date_range = ''today'',
               scraped_timestamp = clock quiet_env 7\<rparr>, Suc 7)"
      using t3 g by blast
    then show ?thesis by (simp add: rows_eval py_strip_def is_space_def)
  qed
  have p4: "process_rows quiet_env ''MLB'' ''today'' ([sample_row] @ short_row # [plain_row]) [] 0 =
     process_rows quiet_env ''MLB'' ''today'' ([sample_row] @ [plain_row]) [] 0"
    using t1 p1 by simp
  show ?thesis using s o l g p1 p2 p3 p4 p5 by simp
qed

section \<open>Properties of the aggregator\<close>



lemma keep_first_append: "keep_first acc (ps @ qs) = keep_first (keep_first acc ps) qs"
  by (induction ps arbitrary: acc) simp_all





text \<open>Each loop of the run appends what it parses, keeping first occurrences.\<close>

lemma process_rows_keep_first:
  "process_rows w sport_name date_range rows acc k =
     (keep_first acc (fst (parsed_rows w sport_name date_range rows k)),
      snd (parsed_rows w sport_name date_range rows k))"
proof (induction rows arbitrary: acc k)
  case Nil
  then show ?case by simp
next
  case (Cons row rows)
  obtain r k' where p: "parse_prop_row w row sport_name date_range k = (r, k')"
    by (cases "parse_prop_row w row sport_name date_range k")
  obtain ps k'' where q: "parsed_rows w sport_name date_range rows k' = (ps, k'')"
    by (cases "parsed_rows w sport_name date_range rows k'")
  show ?case
  proof (cases r)
    case None
    then show ?thesis using p q Cons.IH[of acc k'] by simp
  next
    case (Some prop_data)
    then show ?thesis
      using p q Cons.IH[of acc k'] Cons.IH[of "acc @ [prop_data]" k'] by simp
  qed
qed

lemma scrape_date_range_keep_first:
  "scrape_date_range w config date_range acc k =
     (keep_first acc (fst (extracted_date_range w config date_range k)),
      snd (extracted_date_range w config date_range k))"
  by (cases "remote w k (build_url (sport_id config) date_range)")
    (simp_all add: scrape_date_range_def extracted_date_range_def process_rows_keep_first)

lemma scrape_date_ranges_keep_first:
  "scrape_date_ranges w config drs acc k =
     (keep_first acc (fst (extracted_date_ranges w config drs k)),
      snd (extracted_date_ranges w config drs k))"
proof (induction drs arbitrary: acc k)
  case Nil
  then show ?case by simp
next
  case (Cons date_range rest)
  obtain ps k' where p: "extracted_date_range w config date_range k = (ps, k')"
    by (cases "extracted_date_range w config date_range k")
  obtain qs k'' where q: "extracted_date_ranges w config rest k' = (qs, k'')"
    by (cases "extracted_date_ranges w config rest k'")
  show ?case
    using p q Cons.IH[of "keep_first acc ps" k']
    by (simp add: scrape_date_range_keep_first keep_first_append)
qed

lemma scrape_sports_keep_first:
  "scrape_sports w configs acc k =
     (keep_first acc (fst (extracted_sports w configs k)), snd (extracted_sports w configs k))"
proof (induction configs arbitrary: acc k)
  case Nil
  then show ?case by simp
next
  case (Cons config rest)
  obtain ps k' where p: "extracted_date_ranges w config (date_ranges config) k = (ps, k')"
    by (cases "extracted_date_ranges w config (date_ranges config) k")
  obtain qs k'' where q: "extracted_sports w rest k' = (qs, k'')"
    by (cases "extracted_sports w rest k'")
  show ?case
    using p q Cons.IH[of "keep_first acc ps" k']
    by (simp add: scrape_date_ranges_keep_first keep_first_append)
qed

lemma scrape_player_props_keep_first:
  "scrape_player_props w k =
     (keep_first [] (fst (extracted_props w k)), snd (extracted_props w k))"
  by (simp add: scrape_player_props_def extracted_props_def scrape_sports_keep_first)


lemma parse_sample_row:
  "parse_prop_row dup_env sample_row sp ''today'' k = (Some (sample_record sp), Suc k)"
  by (simp add: parse_prop_row_def Let_def datetime_now_def rows_eval convert_eval
      sample_record_def)

lemma parse_short_row: "parse_prop_row dup_env short_row sp ''today'' k = (None, k)"
  by (simp add: parse_prop_row_def rows_eval)

lemmas url_eval = build_url_def base_url_def str_nat.simps digit_char_def

lemma extracted_props_dup_env:
  "fst (extracted_props dup_env 0) =
     [sample_record ''MLB'', sample_record ''MLB'', sample_record ''WNBA'', sample_record ''WNBA'']"
  by (simp add: extracted_props_def sport_configs_def extracted_date_range_def dup_env_def
      dup_remote_def url_eval parse_sample_row[unfolded dup_env_def]
      parse_short_row[unfolded dup_env_def])

lemma scrape_player_props_dup_env:
  "fst (scrape_player_props dup_env 0) = [sample_record ''MLB'']"
  by (simp add: scrape_player_props_keep_first extracted_props_dup_env same_key_def
      sample_record_def)


section \<open>Properties of the cache manager\<close>

lemmas cache_eval =
  get_cached_or_fresh_data_def is_cache_expired_def read_clock_def run_scrape_def
  datetime_now_def

text \<open>Served from the cache: the list is non-empty, the timestamp set and not too old.\<close>

lemma get_hit:
  assumes "cached_props_data s \<noteq> []" and "cache_timestamp s = Some ts"
    and "clock w (instant s) - ts \<le> timedelta_minutes CACHE_DURATION_MINUTES"
  shows "get_cached_or_fresh_data w s = (cached_props_data s, s\<lparr>instant := Suc (Suc (instant s))\<rparr>)"
  using assms by (simp add: cache_eval)

text \<open>The other branch: one run, whose result and end are recorded.\<close>

lemma get_miss_empty:
  assumes "cached_props_data s = []"
  shows "get_cached_or_fresh_data w s =
    (fst (scrape_player_props w (instant s)),
     s\<lparr>instant := Suc (snd (scrape_player_props w (instant s))),
       scrape_runs := Suc (scrape_runs s),
       cached_props_data := fst (scrape_player_props w (instant s)),
       cache_timestamp := Some (clock w (snd (scrape_player_props w (instant s))))\<rparr>)"
  using assms by (simp add: cache_eval split: prod.splits)

lemma get_result_held:
  "fst (get_cached_or_fresh_data w s) = cached_props_data (snd (get_cached_or_fresh_data w s))"
  by (simp add: cache_eval split: prod.splits option.splits)

lemma get_timestamp_set:
  "cache_timestamp (snd (get_cached_or_fresh_data w s)) \<noteq> None"
  by (auto simp: cache_eval split: prod.splits option.splits)

lemma get_runs:
  "scrape_runs (snd (get_cached_or_fresh_data w s)) = scrape_runs s \<or>
   scrape_runs (snd (get_cached_or_fresh_data w s)) = Suc (scrape_runs s)"
  by (auto simp: cache_eval split: prod.splits option.splits)

lemma scrape_player_props_quiet: "scrape_player_props quiet_env k = ([], k + 26)"
  by (simp add: scrape_player_props_def sport_configs_def scrape_date_range_def quiet_env_def
      quiet_remote_def)

text \<open>
  Claim C1, as amended. When the held list is non-empty, the timestamp is set and the age
  at the call is at most the TTL, \<open>get_cached_or_fresh_data\<close> returns the held list,
  leaves list and timestamp as they are and runs no scrape. Of two calls in a row, when
  the first returns a non-empty list and the second comes within the TTL of the timestamp
  then held, at most one runs a scrape, and the second returns what the first returned.
  When the held list is empty, the call runs one scrape whatever the timestamp.
\<close>

theorem get_cached_or_fresh_data_fresh:
  "(cached_props_data s \<noteq> [] \<and> cache_timestamp s = Some ts \<and>
    clock w (instant s) - ts \<le> timedelta_minutes CACHE_DURATION_MINUTES
      \<longrightarrow> fst (get_cached_or_fresh_data w s) = cached_props_data s \<and>
          cached_props_data (snd (get_cached_or_fresh_data w s)) = cached_props_data s \<and>
          cache_timestamp (snd (get_cached_or_fresh_data w s)) = Some ts \<and>
          scrape_runs (snd (get_cached_or_fresh_data w s)) = scrape_runs s) \<and>
   (fst (get_cached_or_fresh_data w s) \<noteq> [] \<and>
    cache_timestamp (snd (get_cached_or_fresh_data w s)) = Some ts' \<and>
    clock w (instant (snd (get_cached_or_fresh_data w s))) - ts'
      \<le> timedelta_minutes CACHE_DURATION_MINUTES
      \<longrightarrow> scrape_runs (snd (get_cached_or_fresh_data w (snd (get_cached_or_fresh_data w s))))
            \<le> scrape_runs s + 1 \<and>
          fst (get_cached_or_fresh_data w (snd (get_cached_or_fresh_data w s))) =
            fst (get_cached_or_fresh_data w s)) \<and>
   (cached_props_data s = []
      \<longrightarrow> scrape_runs (snd (get_cached_or_fresh_data w s)) = scrape_runs s + 1)"
proof (intro conjI impI)
  assume "cached_props_data s \<noteq> [] \<and> cache_timestamp s = Some ts \<and>
    clock w (instant s) - ts \<le> timedelta_minutes CACHE_DURATION_MINUTES"
  then have h: "get_cached_or_fresh_data w s =
      (cached_props_data s, s\<lparr>instant := Suc (Suc (instant s))\<rparr>)"
    using get_hit[of s ts w] by blast
  show "fst (get_cached_or_fresh_data w s) = cached_props_data s"
    and "cached_props_data (snd (get_cached_or_fresh_data w s)) = cached_props_data s"
    and "scrape_runs (snd (get_cached_or_fresh_data w s)) = scrape_runs s"
    by (simp_all add: h)
  show "cache_timestamp (snd (get_cached_or_fresh_data w s)) = Some ts"
    using \<open>cached_props_data s \<noteq> [] \<and> cache_timestamp s = Some ts \<and> _\<close> by (simp add: h)
next
  let ?s1 = "snd (get_cached_or_fresh_data w s)"
  assume a: "fst (get_cached_or_fresh_data w s) \<noteq> [] \<and> cache_timestamp ?s1 = Some ts' \<and>
    clock w (instant ?s1) - ts' \<le> timedelta_minutes CACHE_DURATION_MINUTES"
  then have "cached_props_data ?s1 \<noteq> []" using get_result_held[of w s] by simp
  then have h: "get_cached_or_fresh_data w ?s1 =
      (cached_props_data ?s1, ?s1\<lparr>instant := Suc (Suc (instant ?s1))\<rparr>)"
    using a get_hit[of ?s1 ts' w] by blast
  show "scrape_runs (snd (get_cached_or_fresh_data w ?s1)) \<le> scrape_runs s + 1"
    using get_runs[of w s] by (auto simp: h)
  show "fst (get_cached_or_fresh_data w ?s1) = fst (get_cached_or_fresh_data w s)"
    using get_result_held[of w s] by (simp add: h)
next
  assume "cached_props_data s = []"
  then show "scrape_runs (snd (get_cached_or_fresh_data w s)) = scrape_runs s + 1"
    by (simp add: get_miss_empty)
qed

lemmas state_eval = initial_state_def empty_fresh_state_def filled_state_def quiet_env_def
  zero_clock_def timedelta_minutes_def CACHE_DURATION_MINUTES_def

text \<open>
  The theorem on a cache that holds one record of age zero: two calls in a row return
  that record and run no scrape. On the empty cache with a timestamp the call runs one.
\<close>

theorem get_cached_or_fresh_data_fresh_witness:
  "cached_props_data filled_state \<noteq> [] \<and> cache_timestamp filled_state = Some 0 \<and>
   clock quiet_env (instant filled_state) - 0 \<le> timedelta_minutes CACHE_DURATION_MINUTES \<and>
   fst (get_cached_or_fresh_data quiet_env filled_state) = [sample_record ''MLB''] \<and>
   scrape_runs (snd (get_cached_or_fresh_data quiet_env filled_state)) = 1 \<and>
   fst (get_cached_or_fresh_data quiet_env (snd (get_cached_or_fresh_data quiet_env filled_state)))
     = [sample_record ''MLB''] \<and>
   scrape_runs (snd (get_cached_or_fresh_data quiet_env
     (snd (get_cached_or_fresh_data quiet_env filled_state)))) \<le> 2 \<and>
   cached_props_data empty_fresh_state = [] \<and>
   scrape_runs (snd (get_cached_or_fresh_data quiet_env empty_fresh_state)) = 2"
proof -
  let ?s1 = "snd (get_cached_or_fresh_data quiet_env filled_state)"
  have h: "cached_props_data filled_state \<noteq> [] \<and> cache_timestamp filled_state = Some 0 \<and>
      clock quiet_env (instant filled_state) - 0 \<le> timedelta_minutes CACHE_DURATION_MINUTES"
    by (simp add: state_eval)
  note t = get_cached_or_fresh_data_fresh[of filled_state 0 quiet_env 0]
  note t' = get_cached_or_fresh_data_fresh[of empty_fresh_state 0 quiet_env 0]
  have a: "fst (get_cached_or_fresh_data quiet_env filled_state) = cached_props_data filled_state"
    "cache_timestamp ?s1 = Some 0" "scrape_runs ?s1 = scrape_runs filled_state"
    using t h by blast+
  have i: "instant ?s1 = 7"
    using get_hit[of filled_state 0 quiet_env] h by (simp add: state_eval)
  have h2: "fst (get_cached_or_fresh_data quiet_env filled_state) \<noteq> [] \<and>
      cache_timestamp ?s1 = Some 0 \<and>
      clock quiet_env (instant ?s1) - 0 \<le> timedelta_minutes CACHE_DURATION_MINUTES"
    using a h by (simp add: i state_eval)
  have b: "scrape_runs (snd (get_cached_or_fresh_data quiet_env ?s1)) \<le> scrape_runs filled_state + 1"
    "fst (get_cached_or_fresh_data quiet_env ?s1) = fst (get_cached_or_fresh_data quiet_env filled_state)"
    using t h2 by blast+
  have e: "cached_props_data empty_fresh_state = []" by (simp add: state_eval)
  have c: "scrape_runs (snd (get_cached_or_fresh_data quiet_env empty_fresh_state)) =
      scrape_runs empty_fresh_state + 1"
    using t' e by blast
  show ?thesis using h a b c e by (simp add: filled_state_def empty_fresh_state_def)
qed

text \<open>
  Claim C1 as stated fails on an empty result. On a site without tables the first call
  from the initial state records the empty list with the timestamp 0. At the second call
  the timestamp is set and the age is 0, yet the scrape runs again: two calls, two runs.
\<close>

theorem get_cached_or_fresh_data_counterexample:
  "cached_props_data (snd (get_cached_or_fresh_data quiet_env initial_state)) = [] \<and>
   cache_timestamp (snd (get_cached_or_fresh_data quiet_env initial_state)) = Some 0 \<and>
   clock quiet_env (instant (snd (get_cached_or_fresh_data quiet_env initial_state))) - 0
     \<le> timedelta_minutes CACHE_DURATION_MINUTES \<and>
   scrape_runs (snd (get_cached_or_fresh_data quiet_env initial_state)) = 1 \<and>
   scrape_runs (snd (get_cached_or_fresh_data quiet_env
     (snd (get_cached_or_fresh_data quiet_env initial_state)))) = 2"
proof -
  have g1: "get_cached_or_fresh_data quiet_env initial_state =
      ([], \<lparr>cached_props_data = [], cache_timestamp = Some 0, instant = 27, scrape_runs = 1\<rparr>)"
    by (simp add: get_miss_empty scrape_player_props_quiet initial_state_def)
      (simp add: quiet_env_def zero_clock_def)
  have g2: "scrape_runs (snd (get_cached_or_fresh_data quiet_env
      \<lparr>cached_props_data = [], cache_timestamp = Some 0, instant = 27, scrape_runs = 1\<rparr>)) = 2"
    by (simp add: get_miss_empty)
  show ?thesis unfolding g1 using g2 by (simp add: state_eval)
qed

text \<open>
  Claim C10. After a call of \<open>get_cached_or_fresh_data\<close> the timestamp is set and the
  returned list is the held list. From the initial state the call stores the result of a
  scrape and the clock reading taken after it.
\<close>

theorem get_cached_or_fresh_data_post:
  "cache_timestamp (snd (get_cached_or_fresh_data w s)) \<noteq> None \<and>
   fst (get_cached_or_fresh_data w s) = cached_props_data (snd (get_cached_or_fresh_data w s)) \<and>
   cached_props_data (snd (get_cached_or_fresh_data w initial_state)) =
     fst (scrape_player_props w 0) \<and>
   cache_timestamp (snd (get_cached_or_fresh_data w initial_state)) =
     Some (clock w (snd (scrape_player_props w 0)))"
  using get_timestamp_set[of w s] get_result_held[of w s]
  by (simp add: get_miss_empty initial_state_def)

text \<open>The theorem on the site that lists one row under two sports, from the initial state.\<close>

theorem get_cached_or_fresh_data_post_witness:
  "cache_timestamp (snd (get_cached_or_fresh_data dup_env initial_state)) = Some 0 \<and>
   fst (get_cached_or_fresh_data dup_env initial_state) = [sample_record ''MLB''] \<and>
   cached_props_data (snd (get_cached_or_fresh_data dup_env initial_state)) = [sample_record ''MLB'']"
proof -
  have c: "clock dup_env (snd (scrape_player_props dup_env 0)) = 0"
    by (simp add: dup_env_def zero_clock_def)
  show ?thesis
    using get_cached_or_fresh_data_post[of dup_env initial_state] scrape_player_props_dup_env c
    by simp
qed

text \<open>
  Claim C4. From any state, \<open>refresh_props_cache\<close> runs the scrape exactly once and
  installs its result with the clock reading taken after it; the response reports the
  size of that result and that timestamp. What was held before has no influence: the
  call behaves as on the state with the list emptied and the timestamp removed.
\<close>

theorem refresh_props_cache_spec:
  "scrape_runs (snd (refresh_props_cache w s)) = scrape_runs s + 1 \<and>
   cached_props_data (snd (refresh_props_cache w s)) = fst (scrape_player_props w (instant s)) \<and>
   cache_timestamp (snd (refresh_props_cache w s)) =
     Some (clock w (snd (scrape_player_props w (instant s)))) \<and>
   refresh_total_props (fst (refresh_props_cache w s)) =
     length (fst (scrape_player_props w (instant s))) \<and>
   refresh_cache_timestamp (fst (refresh_props_cache w s)) =
     Some (clock w (snd (scrape_player_props w (instant s)))) \<and>
   refresh_props_cache w s =
     refresh_props_cache w (s\<lparr>cached_props_data := [], cache_timestamp := None\<rparr>)"
  by (simp add: refresh_props_cache_def get_miss_empty)

text \<open>
  The theorem on the cache that holds one fresh record, with the site that lists one row
  under two sports: the run count goes from 1 to 2 and the new list is installed.
\<close>

theorem refresh_props_cache_spec_witness:
  "scrape_runs (snd (refresh_props_cache dup_env filled_state)) = 2 \<and>
   cache_timestamp (snd (refresh_props_cache dup_env filled_state)) = Some 0 \<and>
   refresh_total_props (fst (refresh_props_cache dup_env filled_state)) =
     length (fst (scrape_player_props dup_env 5))"
proof -
  note t = refresh_props_cache_spec[of dup_env filled_state]
  have r: "scrape_runs (snd (refresh_props_cache dup_env filled_state)) =
      scrape_runs filled_state + 1"
    using t by blast
  have c: "cache_timestamp (snd (refresh_props_cache dup_env filled_state)) =
      Some (clock dup_env (snd (scrape_player_props dup_env (instant filled_state))))"
    using t by blast
  have n: "refresh_total_props (fst (refresh_props_cache dup_env filled_state)) =
      length (fst (scrape_player_props dup_env (instant filled_state)))"
    using t by blast
  have z: "clock dup_env k = 0" for k by (simp add: dup_env_def zero_clock_def)
  have i: "instant filled_state = 5" "scrape_runs filled_state = 1"
    by (simp_all add: filled_state_def)
  show ?thesis using r c n by (simp add: z i)
qed

section \<open>Properties of the query layer\<close>

lemma dict_append_keys: "map fst (dict_append key v d) = map fst d"
  by (induction d) (auto simp: dict_append_def)

lemma dict_append_map_of:
  "map_of (dict_append key v d) sp =
     (if sp = key then map_option (\<lambda>vs. vs @ [v]) (map_of d key) else map_of d sp)"
  by (induction d) (auto simp: dict_append_def)

lemma map_of_new_key:
  "key \<notin> set (map fst d) \<Longrightarrow>
   map_of (d @ [(key, [])]) sp = (if sp = key then Some [] else map_of d sp)"
  by (induction d) auto

lemma group_props_keys:
  "distinct (map fst d) \<Longrightarrow> distinct (map fst (group_props ps d))"
proof (induction ps arbitrary: d)
  case Nil
  then show ?case by simp
next
  case (Cons p ps)
  let ?d = "if sport p \<notin> set (map fst d) then d @ [(sport p, [])] else d"
  have "distinct (map fst ?d)" using Cons.prems by simp
  then have "distinct (map fst (dict_append (sport p) p ?d))" by (simp only: dict_append_keys)
  then show ?case using Cons.IH by simp
qed

text \<open>What the first loop leaves under a sport: what was there, then its records in order.\<close>

lemma group_props_map_of:
  "map_of (group_props ps d) sp =
     (case map_of d sp of
        Some vs \<Rightarrow> Some (vs @ filter (\<lambda>p. sport p = sp) ps)
      | None \<Rightarrow> if sp \<in> sport ` set ps then Some (filter (\<lambda>p. sport p = sp) ps) else None)"
proof (induction ps arbitrary: d)
  case Nil
  then show ?case by (simp split: option.splits)
next
  case (Cons p ps)
  let ?d = "if sport p \<notin> set (map fst d) then d @ [(sport p, [])] else d"
  have m: "map_of ?d x = (if x = sport p \<and> sport p \<notin> set (map fst d) then Some [] else map_of d x)"
    for x
  proof (cases "sport p \<notin> set (map fst d)")
    case True
    show ?thesis using map_of_new_key[OF True, of x] True by (auto simp del: map_of_append)
  next
    case False
    then show ?thesis by simp
  qed
  have n: "sport p \<notin> set (map fst d) \<longleftrightarrow> map_of d (sport p) = None"
    by (simp add: map_of_eq_None_iff)
  have "map_of (group_props (p # ps) d) sp =
      (case map_of (dict_append (sport p) p ?d) sp of
         Some vs \<Rightarrow> Some (vs @ filter (\<lambda>p. sport p = sp) ps)
       | None \<Rightarrow> if sp \<in> sport ` set ps then Some (filter (\<lambda>p. sport p = sp) ps) else None)"
    using Cons.IH[of "dict_append (sport p) p ?d"] by simp
  also have "\<dots> =
      (case map_of d sp of
         Some vs \<Rightarrow> Some (vs @ filter (\<lambda>q. sport q = sp) (p # ps))
       | None \<Rightarrow> if sp \<in> sport ` set (p # ps)
                  then Some (filter (\<lambda>q. sport q = sp) (p # ps)) else None)"
    unfolding dict_append_map_of m using n
    by (cases "map_of d sp"; cases "map_of d (sport p)") auto
  finally show ?case .
qed

lemma get_top_props_map_of:
  "map_of (get_top_props_by_sport props limit) sp =
     (if sp \<in> sport ` set props
      then Some (py_slice_to (filter (\<lambda>p. sport p = sp) props) limit) else None)"
proof -
  have "map_of (get_top_props_by_sport props limit) sp =
      map_option (\<lambda>vs. py_slice_to vs limit) (map_of (group_props props []) sp)"
    by (simp add: get_top_props_by_sport_def map_of_map)
  then show ?thesis by (simp add: group_props_map_of)
qed

lemma get_top_props_keys: "distinct (map fst (get_top_props_by_sport props limit))"
proof -
  have "map fst (get_top_props_by_sport props limit) = map fst (group_props props [])"
    by (simp add: get_top_props_by_sport_def case_prod_unfold)
  then show ?thesis using group_props_keys[of "[]" props] by simp
qed

text \<open>
  Claim C5. For a limit that is not negative, the result of \<open>get_top_props_by_sport\<close> has
  one entry for each sport that occurs in the list and none for another. The group of a
  sport is the first \<open>limit\<close> records of that sport in the order of the list, so it has at
  most \<open>limit\<close> records, and this holds for every group in the result.
\<close>

theorem get_top_props_by_sport_spec:
  "0 \<le> limit \<longrightarrow>
     distinct (map fst (get_top_props_by_sport props limit)) \<and>
     map_of (get_top_props_by_sport props limit) sp =
       (if sp \<in> sport ` set props
        then Some (take (nat limit) (filter (\<lambda>p. sport p = sp) props)) else None) \<and>
     (\<forall>(sp', grp)\<in>set (get_top_props_by_sport props limit).
        grp = take (nat limit) (filter (\<lambda>p. sport p = sp') props) \<and> length grp \<le> nat limit)"
proof (intro impI conjI)
  assume l: "0 \<le> limit"
  show d: "distinct (map fst (get_top_props_by_sport props limit))"
    by (rule get_top_props_keys)
  show "map_of (get_top_props_by_sport props limit) sp =
       (if sp \<in> sport ` set props
        then Some (take (nat limit) (filter (\<lambda>p. sport p = sp) props)) else None)"
    using l by (simp add: get_top_props_map_of py_slice_to_def)
  show "\<forall>(sp', grp)\<in>set (get_top_props_by_sport props limit).
        grp = take (nat limit) (filter (\<lambda>p. sport p = sp') props) \<and> length grp \<le> nat limit"
  proof (intro ballI, clarify)
    fix sp' grp
    assume "(sp', grp) \<in> set (get_top_props_by_sport props limit)"
    then have "map_of (get_top_props_by_sport props limit) sp' = Some grp"
      using d by simp
    then have "grp = take (nat limit) (filter (\<lambda>p. sport p = sp') props)"
      using l by (simp add: get_top_props_map_of py_slice_to_def split: if_splits)
    then show "grp = take (nat limit) (filter (\<lambda>p. sport p = sp') props) \<and>
        length grp \<le> nat limit"
      by simp
  qed
qed

text \<open>
  The theorem on three records, two of MLB around one of WNBA, with the limit 1: each
  sport keeps its first record.
\<close>

theorem get_top_props_by_sport_spec_witness:
  "(0::int) \<le> 1 \<and>
   get_top_props_by_sport [sample_record ''MLB'', sample_record ''WNBA'',
       (sample_record ''MLB'')\<lparr>market := ''Hits''\<rparr>] 1 =
     [(''MLB'', [sample_record ''MLB'']), (''WNBA'', [sample_record ''WNBA''])] \<and>
   map_of (get_top_props_by_sport [sample_record ''MLB'', sample_record ''WNBA'',
       (sample_record ''MLB'')\<lparr>market := ''Hits''\<rparr>] 1) ''MLB'' = Some [sample_record ''MLB'']"
proof -
  let ?ps = "[sample_record ''MLB'', sample_record ''WNBA'',
       (sample_record ''MLB'')\<lparr>market := ''Hits''\<rparr>]"
  have "map_of (get_top_props_by_sport ?ps 1) ''MLB'' =
       (if ''MLB'' \<in> sport ` set ?ps
        then Some (take (nat 1) (filter (\<lambda>p. sport p = ''MLB'') ?ps)) else None)"
    using get_top_props_by_sport_spec[of 1 ?ps "''MLB''"] by simp
  then have a: "map_of (get_top_props_by_sport ?ps 1) ''MLB'' = Some [sample_record ''MLB'']"
    by (simp add: sample_record_def)
  have b: "get_top_props_by_sport ?ps 1 =
     [(''MLB'', [sample_record ''MLB'']), (''WNBA'', [sample_record ''WNBA''])]"
    by (simp add: get_top_props_by_sport_def dict_append_def py_slice_to_def sample_record_def)
  show ?thesis using a b by simp
qed



end
